theory Spec2Isabelle
  imports Main
begin

section \<open>Python string primitives used by \<^verbatim>\<open>database.py\<close>\<close>

text \<open>
  A Python \<^verbatim>\<open>str\<close> is modelled as a \<^typ>\<open>string\<close>; one \<^typ>\<open>char\<close> stands for one
  character with a code point below 256.
\<close>

text \<open>\<^verbatim>\<open>sep.join(xs)\<close>\<close>

fun str_join :: "string \<Rightarrow> string list \<Rightarrow> string" where
  "str_join sep [] = []"
| "str_join sep [x] = x"
| "str_join sep (x # y # ys) = x @ sep @ str_join sep (y # ys)"

text \<open>\<^verbatim>\<open>val.replace('"', '""')\<close>: every double quote (code point 34) is doubled.\<close>

definition dquote :: char where
  "dquote = CHR 0x22"

definition replace_dquote :: "string \<Rightarrow> string" where
  "replace_dquote s = concat (map (\<lambda>c. if c = dquote then [dquote, dquote] else [c]) s)"

text \<open>
  \<^verbatim>\<open>str(n)\<close> for an \<^verbatim>\<open>int\<close>: decimal digits, with a leading minus sign below zero.
  \<open>digit_char\<close> is only applied to numbers below 10.
\<close>

definition digit_char :: "nat \<Rightarrow> char" where
  "digit_char d = ''0123456789'' ! d"

fun str_nat :: "nat \<Rightarrow> string" where
  "str_nat n = (if n < 10 then [digit_char n] else str_nat (n div 10) @ [digit_char (n mod 10)])"

definition str_int :: "int \<Rightarrow> string" where
  "str_int i = (if i < 0 then CHR ''-'' # str_nat (nat (- i)) else str_nat (nat i))"

section \<open>Values, rows and the backup document\<close>

text \<open>
  Python values, as \<^verbatim>\<open>json.load\<close> and \<^verbatim>\<open>sqlite3\<close> produce them: \<^verbatim>\<open>None\<close>,
  \<^verbatim>\<open>bool\<close>, \<^verbatim>\<open>int\<close>, \<^verbatim>\<open>float\<close>, \<^verbatim>\<open>str\<close>, lists, and dicts with string keys;
  \<^verbatim>\<open>sqlite3\<close> also produces \<^verbatim>\<open>bytes\<close>. A dict is an association list in insertion
  order, so the order of its keys and the presence of each key are part of the value, as
  they are for \<^verbatim>\<open>str\<close>; a Python dict never holds a key twice:
  \<open>distinct (map fst d)\<close>. Floats are kept abstract (type \<open>'f\<close>), and so are objects of
  another class (type \<open>'o\<close>: \<^verbatim>\<open>bytes\<close>); the functions that print or test them take
  Python's \<^verbatim>\<open>str\<close> and truth value on these two types as parameters.
\<close>

datatype ('f, 'o) pyval =
    PyNone
  | PyBool bool
  | PyInt int
  | PyFloat 'f
  | PyStr string
  | PyOther 'o
  | PyList "('f, 'o) pyval list"
  | PyDict "(string \<times> ('f, 'o) pyval) list"

text \<open>The items of a dict, such as a row: column names and values.\<close>

type_synonym ('f, 'o) row = "(string \<times> ('f, 'o) pyval) list"

text \<open>
  The keyword arguments of \<^verbatim>\<open>column_spec_from_data\<close> (all but \<^verbatim>\<open>name\<close>) as the call
  has bound them, with the defaults of its signature: \<^verbatim>\<open>default=None\<close> is \<^const>\<open>PyNone\<close>,
  the flags are \<open>False\<close>. The function only prints \<^verbatim>\<open>datatype\<close> and only tests the
  flags, so the record holds the string and the truth values.
\<close>

record ('f, 'o) column_spec =
  datatype' :: string
  default :: "('f, 'o) pyval"
  not_null :: bool
  unique :: bool
  primary_key :: bool
  autoincrement :: bool

text \<open>The exceptions the module's functions raise or let through.\<close>

datatype error =
    NoResults string
  | Malformed_SQL string
  | Unpack_ValueError
  | Unknown_Type_ValueError
  | TypeError
  | AttributeError
  | Sqlite_Error string
  | JSON_Error
  | File_Not_Found

text \<open>\<^verbatim>\<open>v is None\<close>\<close>

fun is_None :: "('f, 'o) pyval \<Rightarrow> bool" where
  "is_None PyNone = True"
| "is_None v = False"

text \<open>\<^verbatim>\<open>data[k] is None\<close> for a key \<open>k\<close> of the dict \<open>d\<close>\<close>

definition item_is_None :: "('f, 'o) row \<Rightarrow> string \<Rightarrow> bool" where
  "item_is_None d k = (case map_of d k of Some v \<Rightarrow> is_None v | None \<Rightarrow> False)"

text \<open>
  \<^verbatim>\<open>repr(s)\<close> of a string: between single quotes, or between double quotes when the
  string holds a single quote and no double quote; the quote and the backslash are
  escaped by a backslash, tab, newline and carriage return are written \<^verbatim>\<open>\t\<close>, \<^verbatim>\<open>\n\<close>
  and \<^verbatim>\<open>\r\<close>, and any other character that is not printable is written \<^verbatim>\<open>\xNN\<close>.
\<close>

definition backslash :: char where
  "backslash = CHR 0x5C"

definition squote :: char where
  "squote = CHR 0x27"

definition hex_digit :: "nat \<Rightarrow> char" where
  "hex_digit d = ''0123456789abcdef'' ! d"

definition is_printable :: "char \<Rightarrow> bool" where
  "is_printable c =
    (let n = of_char c :: nat
     in (32 \<le> n \<and> n \<le> 126) \<or> (161 \<le> n \<and> n \<noteq> 173))"

definition repr_char :: "char \<Rightarrow> char \<Rightarrow> string" where
  "repr_char q c =
    (if c = q \<or> c = backslash then [backslash, c]
     else if c = CHR 0x09 then [backslash, CHR ''t'']
     else if c = CHR 0x0A then [backslash, CHR ''n'']
     else if c = CHR 0x0D then [backslash, CHR ''r'']
     else if \<not> is_printable c
       then [backslash, CHR ''x'', hex_digit (of_char c div 16), hex_digit (of_char c mod 16)]
     else [c])"

definition repr_str :: "string \<Rightarrow> string" where
  "repr_str s =
    (let q = (if squote \<in> set s \<and> dquote \<notin> set s then dquote else squote)
     in [q] @ concat (map (repr_char q) s) @ [q])"

text \<open>
  \<^verbatim>\<open>repr(v)\<close>: a list and a dict print the \<^verbatim>\<open>repr\<close> of their items, separated by a comma
  and a space.
\<close>

fun py_repr :: "('f \<Rightarrow> string) \<Rightarrow> ('o \<Rightarrow> string) \<Rightarrow> ('f, 'o) pyval \<Rightarrow> string" where
  "py_repr fstr ostr PyNone = ''None''"
| "py_repr fstr ostr (PyBool b) = (if b then ''True'' else ''False'')"
| "py_repr fstr ostr (PyInt i) = str_int i"
| "py_repr fstr ostr (PyFloat x) = fstr x"
| "py_repr fstr ostr (PyStr s) = repr_str s"
| "py_repr fstr ostr (PyOther x) = ostr x"
| "py_repr fstr ostr (PyList xs) = ''['' @ str_join '', '' (map (py_repr fstr ostr) xs) @ '']''"
| "py_repr fstr ostr (PyDict kvs) =
     ''{'' @ str_join '', '' (map (\<lambda>kv. repr_str (fst kv) @ '': '' @ py_repr fstr ostr (snd kv)) kvs) @ ''}''"

text \<open>
  Python's \<^verbatim>\<open>str(v)\<close>, which an f-string applies to the value it formats:
  a string is itself, a bool is \<^verbatim>\<open>True\<close> or \<^verbatim>\<open>False\<close>, an int is in decimal, and a
  list or a dict is its \<^verbatim>\<open>repr\<close>.
\<close>

fun py_str :: "('f \<Rightarrow> string) \<Rightarrow> ('o \<Rightarrow> string) \<Rightarrow> ('f, 'o) pyval \<Rightarrow> string" where
  "py_str fstr ostr PyNone = ''None''"
| "py_str fstr ostr (PyBool b) = (if b then ''True'' else ''False'')"
| "py_str fstr ostr (PyInt i) = str_int i"
| "py_str fstr ostr (PyFloat x) = fstr x"
| "py_str fstr ostr (PyStr s) = s"
| "py_str fstr ostr (PyOther x) = ostr x"
| "py_str fstr ostr (PyList xs) = py_repr fstr ostr (PyList xs)"
| "py_str fstr ostr (PyDict kvs) = py_repr fstr ostr (PyDict kvs)"

text \<open>The truth value of a Python value, as \<^verbatim>\<open>if v:\<close> tests it.\<close>

fun truthy :: "('f \<Rightarrow> bool) \<Rightarrow> ('o \<Rightarrow> bool) \<Rightarrow> ('f, 'o) pyval \<Rightarrow> bool" where
  "truthy tf tother PyNone = False"
| "truthy tf tother (PyBool b) = b"
| "truthy tf tother (PyInt i) = (i \<noteq> 0)"
| "truthy tf tother (PyFloat x) = tf x"
| "truthy tf tother (PyStr s) = (s \<noteq> [])"
| "truthy tf tother (PyOther x) = tother x"
| "truthy tf tother (PyList xs) = (xs \<noteq> [])"
| "truthy tf tother (PyDict kvs) = (kvs \<noteq> [])"

section \<open>Statement builder\<close>

text \<open>\<^verbatim>\<open>column_spec_from_data\<close>: the string \<^verbatim>\<open>s\<close> grows by one \<^verbatim>\<open>+=\<close> after the other.\<close>

definition column_spec_from_data ::
  "('f \<Rightarrow> string) \<Rightarrow> ('o \<Rightarrow> string) \<Rightarrow> string \<Rightarrow> ('f, 'o) column_spec \<Rightarrow> string" where
  "column_spec_from_data fstr ostr name spec =
    (let s = name @ '' '' @ datatype' spec;
         s = (if \<not> is_None (default spec)
              then s @ '' DEFAULT '' @ py_str fstr ostr (default spec) else s);
         s = (if not_null spec then s @ '' NOT NULL'' else s);
         s = (if unique spec then s @ '' UNIQUE'' else s);
         s = (if primary_key spec
              then (let s = s @ '' PRIMARY KEY''
                    in if autoincrement spec then s @ '' AUTOINCREMENT'' else s)
              else s)
     in s)"

text \<open>\<^verbatim>\<open>create_statement_from_data\<close>; the other keys of the table (\<^verbatim>\<open>**kwargs\<close>) are ignored.\<close>

definition create_statement_from_data ::
  "('f \<Rightarrow> string) \<Rightarrow> ('o \<Rightarrow> string) \<Rightarrow> string \<Rightarrow> (string \<times> ('f, 'o) column_spec) list \<Rightarrow> string" where
  "create_statement_from_data fstr ostr name cols =
    (let cs = map (\<lambda>(n, spec). column_spec_from_data fstr ostr n spec) cols;
         cs = str_join '', '' cs
     in ''CREATE TABLE '' @ name @ '' ('' @ cs @ '');'')"

text \<open>\<^verbatim>\<open>del data[k]\<close>\<close>

definition dict_del :: "string \<Rightarrow> ('f, 'o) row \<Rightarrow> ('f, 'o) row" where
  "dict_del k d = filter (\<lambda>(k', v). k' \<noteq> k) d"

text \<open>
  The loop \<^verbatim>\<open>for k in list(data.keys()): if data[k] is None: del data[k]\<close>, over the
  snapshot \<open>ks\<close> of the keys. Every key of the snapshot is still in the dict when the loop
  reaches it (only that key's own turn can delete it), so \<^verbatim>\<open>data[k]\<close> does not raise.
\<close>

fun del_none_loop :: "('f, 'o) row \<Rightarrow> string list \<Rightarrow> ('f, 'o) row" where
  "del_none_loop d [] = d"
| "del_none_loop d (k # ks) =
     del_none_loop (if item_is_None d k then dict_del k d else d) ks"

text \<open>
  The loop over \<^verbatim>\<open>data.values()\<close> that fills the list \<^verbatim>\<open>vals\<close>. \<^verbatim>\<open>isinstance(val, (int, float))\<close>
  holds for a \<^verbatim>\<open>bool\<close> too, since \<^verbatim>\<open>bool\<close> is a subclass of \<^verbatim>\<open>int\<close>.
\<close>

fun render_vals ::
  "('f \<Rightarrow> string) \<Rightarrow> ('f, 'o) pyval list \<Rightarrow> string list \<Rightarrow> error + string list" where
  "render_vals fstr [] vals = Inr vals"
| "render_vals fstr (PyInt i # vs) vals = render_vals fstr vs (vals @ [str_int i])"
| "render_vals fstr (PyBool b # vs) vals =
     render_vals fstr vs (vals @ [if b then ''True'' else ''False''])"
| "render_vals fstr (PyFloat x # vs) vals = render_vals fstr vs (vals @ [fstr x])"
| "render_vals fstr (PyStr s # vs) vals =
     render_vals fstr vs (vals @ [[dquote] @ replace_dquote s @ [dquote]])"
| "render_vals fstr (v # vs) vals = Inl Unknown_Type_ValueError"

text \<open>
  Lines 209 to 220 of \<^verbatim>\<open>insert_statement_from_data\<close>, on the dict \<open>d\<close> that the local
  name \<^verbatim>\<open>data\<close> is bound to after the deletions.
\<close>

definition insert_statement_of ::
  "('f \<Rightarrow> string) \<Rightarrow> string \<Rightarrow> ('f, 'o) row \<Rightarrow> error + string" where
  "insert_statement_of fstr name d =
    (let cols = str_join '','' (map fst d)
     in case render_vals fstr (map snd d) [] of
          Inl e \<Rightarrow> Inl e
        | Inr vals \<Rightarrow>
            Inr (''INSERT INTO '' @ name @ '' ('' @ cols @ '') VALUES ('' @ str_join '', '' vals @ '');''))"

text \<open>
  \<^verbatim>\<open>insert_statement_from_data\<close> as a function of the row's contents:
  \<^verbatim>\<open>dict(**data)\<close> copies, the loop deletes, the rest builds the statement.
\<close>

definition insert_statement_from_data ::
  "('f \<Rightarrow> string) \<Rightarrow> string \<Rightarrow> ('f, 'o) row \<Rightarrow> error + string" where
  "insert_statement_from_data fstr name data =
    (let d = data;
         d = del_none_loop d (map fst d)
     in insert_statement_of fstr name d)"

subsection \<open>The calls that \<^verbatim>\<open>load_backup\<close> makes on the decoded backup\<close>

text \<open>
  \<^verbatim>\<open>insert_statement_from_data(name, row)\<close> on an arbitrary value: \<^verbatim>\<open>dict(**data)\<close>
  raises a \<^verbatim>\<open>TypeError\<close> when \<^verbatim>\<open>data\<close> is not a mapping.
\<close>

definition insert_statement_from_value ::
  "('f \<Rightarrow> string) \<Rightarrow> string \<Rightarrow> ('f, 'o) pyval \<Rightarrow> error + string" where
  "insert_statement_from_value fstr name v =
    (case v of
       PyDict data \<Rightarrow> insert_statement_from_data fstr name data
     | _ \<Rightarrow> Inl TypeError)"

text \<open>The list comprehension of \<^verbatim>\<open>populate_from_data\<close> stops at the first row that raises.\<close>

fun populate_rows ::
  "('f \<Rightarrow> string) \<Rightarrow> string \<Rightarrow> ('f, 'o) pyval list \<Rightarrow> error + string list" where
  "populate_rows fstr name [] = Inr []"
| "populate_rows fstr name (row # rs) =
     (case insert_statement_from_value fstr name row of
        Inl e \<Rightarrow> Inl e
      | Inr st \<Rightarrow>
          (case populate_rows fstr name rs of
             Inl e \<Rightarrow> Inl e
           | Inr sts \<Rightarrow> Inr (st # sts)))"

text \<open>
  \<^verbatim>\<open>populate_from_data\<close> with the value bound to \<^verbatim>\<open>rows\<close>. \<^verbatim>\<open>for row in rows\<close> goes
  through the items of a list, the keys of a dict and the characters of a string, and
  raises a \<^verbatim>\<open>TypeError\<close> on a value that is not iterable. A \<^verbatim>\<open>bytes\<close> object yields
  integers, so the first of them raises the \<^verbatim>\<open>TypeError\<close> of \<^verbatim>\<open>dict(**data)\<close>; it has none
  when it is empty, which is when it is false.
\<close>

definition populate_from_data ::
  "('f \<Rightarrow> string) \<Rightarrow> ('o \<Rightarrow> bool) \<Rightarrow> string \<Rightarrow> ('f, 'o) pyval \<Rightarrow> error + string list" where
  "populate_from_data fstr tother name rs =
    (case rs of
       PyList xs \<Rightarrow> populate_rows fstr name xs
     | PyDict kvs \<Rightarrow> populate_rows fstr name (map (\<lambda>kv. PyStr (fst kv) :: ('f, 'o) pyval) kvs)
     | PyStr s \<Rightarrow> populate_rows fstr name (map (\<lambda>c. PyStr [c] :: ('f, 'o) pyval) s)
     | PyOther x \<Rightarrow> (if tother x then Inl TypeError else Inr [])
     | _ \<Rightarrow> Inl TypeError)"

text \<open>
  The call \<^verbatim>\<open>self.populate_from_data(name=k, **v)\<close>: \<^verbatim>\<open>v\<close> has to be a mapping, without
  the keys \<^verbatim>\<open>name\<close> and \<^verbatim>\<open>self\<close>, which the call already gives, and with the key
  \<^verbatim>\<open>rows\<close>, or the call raises a \<^verbatim>\<open>TypeError\<close>; its other keys go to \<^verbatim>\<open>**kwargs\<close>.
\<close>

definition call_populate_from_data ::
  "('f \<Rightarrow> string) \<Rightarrow> ('o \<Rightarrow> bool) \<Rightarrow> string \<Rightarrow> ('f, 'o) pyval \<Rightarrow> error + string list" where
  "call_populate_from_data fstr tother k v =
    (case v of
       PyDict kw \<Rightarrow>
         if ''name'' \<in> set (map fst kw) \<or> ''self'' \<in> set (map fst kw) then Inl TypeError
         else (case map_of kw ''rows'' of
                 None \<Rightarrow> Inl TypeError
               | Some rs \<Rightarrow> populate_from_data fstr tother k rs)
     | _ \<Rightarrow> Inl TypeError)"

text \<open>
  The call \<^verbatim>\<open>self.column_spec_from_data(name=n, **spec)\<close> binds the keyword
  parameters: \<^verbatim>\<open>spec\<close> has to be a mapping whose keys are among the keyword parameters
  other than \<^verbatim>\<open>name\<close>, \<^verbatim>\<open>datatype\<close> among them, or the call raises a \<^verbatim>\<open>TypeError\<close>; a
  parameter without a key takes its default. The result is the arguments as bound.
\<close>

definition column_spec_keys :: "string list" where
  "column_spec_keys =
    [''datatype'', ''default'', ''not_null'', ''unique'', ''primary_key'', ''autoincrement'']"

definition flag_of :: "('f \<Rightarrow> bool) \<Rightarrow> ('o \<Rightarrow> bool) \<Rightarrow> ('f, 'o) row \<Rightarrow> string \<Rightarrow> bool" where
  "flag_of tf tother kw k = (case map_of kw k of None \<Rightarrow> False | Some v \<Rightarrow> truthy tf tother v)"

definition bind_column_spec ::
  "('f \<Rightarrow> string) \<Rightarrow> ('o \<Rightarrow> string) \<Rightarrow> ('f \<Rightarrow> bool) \<Rightarrow> ('o \<Rightarrow> bool) \<Rightarrow>
   ('f, 'o) pyval \<Rightarrow> error + ('f, 'o) column_spec" where
  "bind_column_spec fstr ostr tf tother spec =
    (case spec of
       PyDict kw \<Rightarrow>
         if \<not> list_all (\<lambda>k. k \<in> set column_spec_keys) (map fst kw) then Inl TypeError
         else (case map_of kw ''datatype'' of
                 None \<Rightarrow> Inl TypeError
               | Some dt \<Rightarrow>
                   Inr \<lparr>datatype' = py_str fstr ostr dt,
                        default = (case map_of kw ''default'' of None \<Rightarrow> PyNone | Some d \<Rightarrow> d),
                        not_null = flag_of tf tother kw ''not_null'',
                        unique = flag_of tf tother kw ''unique'',
                        primary_key = flag_of tf tother kw ''primary_key'',
                        autoincrement = flag_of tf tother kw ''autoincrement''\<rparr>)
     | _ \<Rightarrow> Inl TypeError)"

text \<open>
  The bindings of the list comprehension of \<^verbatim>\<open>create_statement_from_data\<close> over
  \<^verbatim>\<open>columns.items()\<close>, up to the first column whose call raises. Printing a column
  raises nothing, so all the columns are bound here before the first is printed.
\<close>

fun bind_columns ::
  "('f \<Rightarrow> string) \<Rightarrow> ('o \<Rightarrow> string) \<Rightarrow> ('f \<Rightarrow> bool) \<Rightarrow> ('o \<Rightarrow> bool) \<Rightarrow>
   ('f, 'o) row \<Rightarrow> error + (string \<times> ('f, 'o) column_spec) list" where
  "bind_columns fstr ostr tf tother [] = Inr []"
| "bind_columns fstr ostr tf tother ((n, spec) # items) =
     (case bind_column_spec fstr ostr tf tother spec of
        Inl e \<Rightarrow> Inl e
      | Inr c \<Rightarrow>
          (case bind_columns fstr ostr tf tother items of
             Inl e \<Rightarrow> Inl e
           | Inr cs \<Rightarrow> Inr ((n, c) # cs)))"

text \<open>
  The call \<^verbatim>\<open>self.create_statement_from_data(name=k, **v)\<close>: \<^verbatim>\<open>v\<close> has to be a
  mapping, without the keys \<^verbatim>\<open>name\<close> and \<^verbatim>\<open>self\<close> and with the key \<^verbatim>\<open>columns\<close>, and
  \<^verbatim>\<open>columns.items()\<close> raises an \<^verbatim>\<open>AttributeError\<close> when \<^verbatim>\<open>columns\<close> is not a dict.
\<close>

definition call_create_statement_from_data ::
  "('f \<Rightarrow> string) \<Rightarrow> ('o \<Rightarrow> string) \<Rightarrow> ('f \<Rightarrow> bool) \<Rightarrow> ('o \<Rightarrow> bool) \<Rightarrow>
   string \<Rightarrow> ('f, 'o) pyval \<Rightarrow> error + string" where
  "call_create_statement_from_data fstr ostr tf tother k v =
    (case v of
       PyDict kw \<Rightarrow>
         if ''name'' \<in> set (map fst kw) \<or> ''self'' \<in> set (map fst kw) then Inl TypeError
         else (case map_of kw ''columns'' of
                 None \<Rightarrow> Inl TypeError
               | Some (PyDict items) \<Rightarrow>
                   (case bind_columns fstr ostr tf tother items of
                      Inl e \<Rightarrow> Inl e
                    | Inr cols \<Rightarrow> Inr (create_statement_from_data fstr ostr k cols))
               | Some other \<Rightarrow> Inl AttributeError)
     | _ \<Rightarrow> Inl TypeError)"

subsection \<open>The same function on a store of dict objects\<close>

text \<open>
  The caller passes a reference to its dict. The store maps addresses to dict objects;
  addresses below \<open>next_free\<close> are allocated. \<^verbatim>\<open>dict(**data)\<close> allocates a new object
  with the same items and rebinds the local name \<^verbatim>\<open>data\<close> to it; \<^verbatim>\<open>del data[k]\<close>
  then mutates the object the local name refers to.
\<close>

record ('f, 'o) heap =
  cells :: "nat \<Rightarrow> ('f, 'o) row"
  next_free :: nat

definition dict_copy :: "('f, 'o) heap \<Rightarrow> nat \<Rightarrow> nat \<times> ('f, 'o) heap" where
  "dict_copy h a =
    (next_free h, h\<lparr>cells := (cells h)(next_free h := cells h a), next_free := Suc (next_free h)\<rparr>)"

fun del_none_loop_heap :: "('f, 'o) heap \<Rightarrow> nat \<Rightarrow> string list \<Rightarrow> ('f, 'o) heap" where
  "del_none_loop_heap h a [] = h"
| "del_none_loop_heap h a (k # ks) =
     del_none_loop_heap
       (if item_is_None (cells h a) k
        then h\<lparr>cells := (cells h)(a := dict_del k (cells h a))\<rparr> else h) a ks"

definition insert_statement_from_data_heap ::
  "('f \<Rightarrow> string) \<Rightarrow> string \<Rightarrow> nat \<Rightarrow> ('f, 'o) heap \<Rightarrow> (error + string) \<times> ('f, 'o) heap" where
  "insert_statement_from_data_heap fstr name data h =
    (let (data, h) = dict_copy h data;
         h = del_none_loop_heap h data (map fst (cells h data))
     in (insert_statement_of fstr name (cells h data), h))"

section \<open>Reading a schema definition back (\<^verbatim>\<open>as_storable_dict\<close>)\<close>

text \<open>
  The character classes of Python 3 on code points below 256: \<^verbatim>\<open>\w\<close> of the \<^verbatim>\<open>re\<close>
  module (alphanumeric characters and the underscore), and the white space that
  \<^verbatim>\<open>str.split()\<close> and \<^verbatim>\<open>str.strip()\<close> remove.
\<close>

definition is_word_char :: "char \<Rightarrow> bool" where
  "is_word_char c =
    (let n = of_char c :: nat
     in (48 \<le> n \<and> n \<le> 57) \<or> (65 \<le> n \<and> n \<le> 90) \<or> n = 95 \<or> (97 \<le> n \<and> n \<le> 122)
        \<or> n = 170 \<or> n = 178 \<or> n = 179 \<or> n = 181 \<or> n = 185 \<or> n = 186
        \<or> (188 \<le> n \<and> n \<le> 190) \<or> (192 \<le> n \<and> n \<le> 214) \<or> (216 \<le> n \<and> n \<le> 246)
        \<or> (248 \<le> n \<and> n \<le> 255))"

definition is_space :: "char \<Rightarrow> bool" where
  "is_space c =
    (let n = of_char c :: nat
     in (9 \<le> n \<and> n \<le> 13) \<or> (28 \<le> n \<and> n \<le> 32) \<or> n = 133 \<or> n = 160)"

definition newline :: char where
  "newline = CHR 0x0A"

text \<open>\<^verbatim>\<open>' '.join(sql.split('\n'))\<close>: every newline becomes a space.\<close>

definition join_lines :: "string \<Rightarrow> string" where
  "join_lines sql = map (\<lambda>c. if c = newline then CHR '' '' else c) sql"

text \<open>\<open>strip_prefix p s\<close> is the rest of \<open>s\<close> after its prefix \<open>p\<close>, when \<open>s\<close> starts with \<open>p\<close>.\<close>

fun strip_prefix :: "string \<Rightarrow> string \<Rightarrow> string option" where
  "strip_prefix [] s = Some s"
| "strip_prefix (p # ps) [] = None"
| "strip_prefix (p # ps) (c # cs) = (if p = c then strip_prefix ps cs else None)"

text \<open>\<^verbatim>\<open>p in s\<close> for two strings\<close>

fun is_substring :: "string \<Rightarrow> string \<Rightarrow> bool" where
  "is_substring p [] = (p = [])"
| "is_substring p (c # cs) = (strip_prefix p (c # cs) \<noteq> None \<or> is_substring p cs)"

text \<open>
  The end of the pattern, \<^verbatim>\<open>(.*)\);?$\<close>, on the text \<open>r\<close> after the opening parenthesis:
  \<^verbatim>\<open>$\<close> stands at the end of the string or before a newline that ends it, \<^verbatim>\<open>;?\<close> takes a
  semicolon when one is there, \<^verbatim>\<open>\)\<close> needs a closing parenthesis before that, and
  the group is what is left, which \<^verbatim>\<open>.\<close> lets hold no newline. The result is the group.
\<close>

definition match_tail :: "string \<Rightarrow> string option" where
  "match_tail r =
    (let r = (if r \<noteq> [] \<and> last r = newline then butlast r else r);
         r = (if r \<noteq> [] \<and> last r = CHR '';'' then butlast r else r)
     in if r \<noteq> [] \<and> last r = CHR '')'' \<and> newline \<notin> set (butlast r)
        then Some (butlast r) else None)"

text \<open>
  \<^verbatim>\<open>re.compile(r'^CREATE TABLE (\w+) \((.*)\);?$').match(sql)\<close>: the two groups of the
  match, or \<open>None\<close>. After \<^verbatim>\<open>\w+\<close> the pattern wants a space, which is no word character,
  so the first group is the whole run of word characters.
\<close>

definition create_re_match :: "string \<Rightarrow> (string \<times> string) option" where
  "create_re_match sql =
    (case strip_prefix ''CREATE TABLE '' sql of
       None \<Rightarrow> None
     | Some t \<Rightarrow>
         (let name = takeWhile is_word_char t
          in if name = [] then None
             else (case strip_prefix '' ('' (dropWhile is_word_char t) of
                     None \<Rightarrow> None
                   | Some r \<Rightarrow>
                       (case match_tail r of
                          None \<Rightarrow> None
                        | Some column_data \<Rightarrow> Some (name, column_data)))))"

text \<open>\<^verbatim>\<open>s.split(',')\<close>: the pieces between the commas, at least one.\<close>

fun split_comma :: "string \<Rightarrow> string list" where
  "split_comma [] = [[]]"
| "split_comma (c # cs) =
     (if c = CHR '','' then [] # split_comma cs
      else (case split_comma cs of
              [] \<Rightarrow> [[c]]
            | p # ps \<Rightarrow> (c # p) # ps))"

text \<open>\<^verbatim>\<open>s.strip()\<close>\<close>

definition strip :: "string \<Rightarrow> string" where
  "strip s = rev (dropWhile is_space (rev (dropWhile is_space s)))"

text \<open>\<^verbatim>\<open>s.split()\<close>: the maximal runs of characters that are not white space.\<close>

fun split_ws_aux :: "string \<Rightarrow> string \<Rightarrow> string list" where
  "split_ws_aux cur [] = (if cur = [] then [] else [cur])"
| "split_ws_aux cur (c # cs) =
     (if is_space c then (if cur = [] then split_ws_aux [] cs else cur # split_ws_aux [] cs)
      else split_ws_aux (cur @ [c]) cs)"

definition split_ws :: "string \<Rightarrow> string list" where
  "split_ws s = split_ws_aux [] s"

text \<open>\<^verbatim>\<open>d[k] = v\<close> on a dict: a key already there keeps its place.\<close>

fun dict_set :: "string \<Rightarrow> 'v \<Rightarrow> (string \<times> 'v) list \<Rightarrow> (string \<times> 'v) list" where
  "dict_set k v [] = [(k, v)]"
| "dict_set k v ((k', v') # d) = (if k' = k then (k, v) # d else (k', v') # dict_set k v d)"

text \<open>
  The body of \<^verbatim>\<open>for cdata in column_data\<close>: \<^verbatim>\<open>n, t = cdata.split()[:2]\<close> raises a
  \<^verbatim>\<open>ValueError\<close> when the fragment has fewer than two tokens. The dict \<^verbatim>\<open>c\<close> starts
  as \<^verbatim>\<open>dict(datatype=t)\<close> and gets a key, in this order, for each of the substrings
  \<^verbatim>\<open>NOT NULL\<close>, \<^verbatim>\<open>UNIQUE\<close>, \<^verbatim>\<open>AUTOINCREMENT\<close> and \<^verbatim>\<open>PRIMARY KEY\<close> that the whole
  fragment contains.
\<close>

definition parse_column :: "string \<Rightarrow> error + string \<times> ('f, 'o) pyval" where
  "parse_column cdata =
    (case take 2 (split_ws cdata) of
       [n, t] \<Rightarrow>
         Inr (n, PyDict
           ([(''datatype'', PyStr t)]
            @ (if is_substring ''NOT NULL'' cdata then [(''not_null'', PyBool True)] else [])
            @ (if is_substring ''UNIQUE'' cdata then [(''unique'', PyBool True)] else [])
            @ (if is_substring ''AUTOINCREMENT'' cdata then [(''autoincrement'', PyBool True)] else [])
            @ (if is_substring ''PRIMARY KEY'' cdata then [(''primary_key'', PyBool True)] else [])))
     | _ \<Rightarrow> Inl Unpack_ValueError)"

fun parse_columns ::
  "string list \<Rightarrow> ('f, 'o) row \<Rightarrow> error + ('f, 'o) row" where
  "parse_columns [] cols = Inr cols"
| "parse_columns (cdata # cs) cols =
     (case parse_column cdata of
        Inl e \<Rightarrow> Inl e
      | Inr (n, c) \<Rightarrow> parse_columns cs (dict_set n c cols))"

text \<open>
  The body of \<^verbatim>\<open>for sql in sources\<close>: one schema definition to the table's name and its
  entry of the document, \<^verbatim>\<open>dict(rows=list(), columns=columns)\<close>.
\<close>

definition parse_create ::
  "string \<Rightarrow> error + string \<times> ('f, 'o) pyval" where
  "parse_create sql =
    (let sql = join_lines sql
     in case create_re_match sql of
          Some (name, column_data) \<Rightarrow>
            (let column_data = map strip (split_comma column_data)
             in case parse_columns column_data [] of
                  Inl e \<Rightarrow> Inl e
                | Inr cols \<Rightarrow> Inr (name, PyDict [(''rows'', PyList []), (''columns'', PyDict cols)]))
        | None \<Rightarrow> Inl (Malformed_SQL sql))"

fun parse_sources ::
  "string list \<Rightarrow> ('f, 'o) row \<Rightarrow> error + ('f, 'o) row" where
  "parse_sources [] data = Inr data"
| "parse_sources (sql # sources) data =
     (case parse_create sql of
        Inl e \<Rightarrow> Inl e
      | Inr (name, td) \<Rightarrow> parse_sources sources (dict_set name td data))"

section \<open>The database engine, the JSON codec and the files\<close>

text \<open>
  What the program takes from outside the repository: the \<^verbatim>\<open>sqlite3\<close> engine, on
  database states of type \<open>'s\<close> (a statement run by \<^verbatim>\<open>cursor.execute\<close> gives the new state
  or raises; the two queries of \<^verbatim>\<open>as_storable_dict\<close> give their result rows; a database
  file created by \<^verbatim>\<open>sqlite3.connect\<close> is empty), the \<^verbatim>\<open>json\<close> module (\<^verbatim>\<open>json.load\<close> gives
  the value a text decodes to; \<^verbatim>\<open>json.dump\<close> gives the text it wrote, and the exception
  that stopped it when it raised), the built-in function \<^verbatim>\<open>hash\<close> on strings, and
  \<^verbatim>\<open>str\<close> and the truth value on floats and on objects of other classes.
\<close>

record ('s, 'f, 'o) runtime =
  sql_execute :: "'s \<Rightarrow> string \<Rightarrow> error + 's"
  sql_master :: "'s \<Rightarrow> error + string list"
  sql_select_all :: "'s \<Rightarrow> string \<Rightarrow> error + ('f, 'o) row list"
  sql_empty :: 's
  json_load :: "string \<Rightarrow> error + ('f, 'o) pyval"
  json_dump :: "('f, 'o) pyval \<Rightarrow> string \<times> error option"
  py_hash :: "string \<Rightarrow> int"
  str_float :: "'f \<Rightarrow> string"
  str_other :: "'o \<Rightarrow> string"
  truthy_float :: "'f \<Rightarrow> bool"
  truthy_other :: "'o \<Rightarrow> bool"

text \<open>
  The two actions of a reconciliation pass, logged when \<^verbatim>\<open>load_backup\<close> and
  \<^verbatim>\<open>save_backup\<close> are entered.
\<close>

datatype event = Restore | Refresh

text \<open>
  The \<^verbatim>\<open>Database\<close> object (\<^verbatim>\<open>dummy\<close>, \<^verbatim>\<open>recovered\<close>) and what it works on: the file at
  \<^verbatim>\<open>self.path\<close> (a database state and the file's modification time, when the file
  exists), the file at \<^verbatim>\<open>self.backup_path\<close> (its text and modification time), the
  \<^verbatim>\<open>.bak\<close> copies made so far, and the time of the pass, which a write stamps on the
  file it writes. The field \<open>events\<close> is the log of the actions; the program does not read it.
\<close>

record ('s, 't) state =
  dummy :: bool
  recovered :: bool
  db_file :: "('s \<times> 't) option"
  backup_file :: "(string \<times> 't) option"
  bak_files :: "'s list"
  clock :: 't
  events :: "event list"

type_synonym ('a, 's, 't) prog = "('s, 't) state \<Rightarrow> (error + 'a) \<times> ('s, 't) state"

text \<open>\<^verbatim>\<open>sqlite3.connect(self.path)\<close> creates an empty database file when there is none.\<close>

definition connect :: "('s, 'f, 'o) runtime \<Rightarrow> ('s, 't) state \<Rightarrow> 's \<times> ('s, 't) state" where
  "connect rt st =
    (case db_file st of
       Some (db, t) \<Rightarrow> (db, st)
     | None \<Rightarrow> (sql_empty rt, st\<lparr>db_file := Some (sql_empty rt, clock st)\<rparr>))"

text \<open>
  \<^verbatim>\<open>query\<close>: \<open>fetch\<close> stands for \<^verbatim>\<open>cur.execute(query); cur.fetchall()\<close> with the row
  factory of the call; an empty result raises \<^verbatim>\<open>NoResults\<close>.
\<close>

definition query ::
  "('s, 'f, 'o) runtime \<Rightarrow> ('s \<Rightarrow> error + 'r list) \<Rightarrow> string \<Rightarrow> ('r list, 's, 't) prog" where
  "query rt fetch q st =
    (let (db, st) = connect rt st
     in case fetch db of
          Inl e \<Rightarrow> (Inl e, st)
        | Inr results \<Rightarrow>
            if results = [] then (Inl (NoResults q), st) else (Inr results, st))"

text \<open>The argument of \<^verbatim>\<open>execute_sql\<close>: one statement or a list of statements.\<close>

datatype command = Single string | Batch "string list"

text \<open>The loop \<^verbatim>\<open>for cmnd in command: cur.execute(cmnd)\<close> inside the open transaction.\<close>

fun run_commands :: "('s, 'f, 'o) runtime \<Rightarrow> 's \<Rightarrow> string list \<Rightarrow> error + 's" where
  "run_commands rt db [] = Inr db"
| "run_commands rt db (cmnd # cs) =
     (case sql_execute rt db cmnd of
        Inl e \<Rightarrow> Inl e
      | Inr db' \<Rightarrow> run_commands rt db' cs)"

text \<open>
  \<^verbatim>\<open>execute_sql\<close>. In dummy mode the command is printed and nothing is run. Otherwise
  the statements run on a connection inside \<^verbatim>\<open>with conn:\<close>, a list between
  \<^verbatim>\<open>BEGIN TRANSACTION\<close> and \<^verbatim>\<open>END TRANSACTION\<close>: when all succeed the new state is committed
  to the file, and when one raises, the context manager rolls the transaction back, so
  the file keeps the state it had, and the exception goes on to the caller. A commit
  that changes nothing (an empty list of statements) does not write the file, which
  keeps its modification time.
\<close>

definition execute_sql :: "('s, 'f, 'o) runtime \<Rightarrow> command \<Rightarrow> (unit, 's, 't) prog" where
  "execute_sql rt cmd st =
    (if dummy st then (Inr (), st)
     else
       (let (db, st) = connect rt st
        in case (case cmd of
                   Single c \<Rightarrow> sql_execute rt db c
                 | Batch cs \<Rightarrow> run_commands rt db cs) of
             Inl e \<Rightarrow> (Inl e, st)
           | Inr db' \<Rightarrow>
               (Inr (), if db' = db then st else st\<lparr>db_file := Some (db', clock st)\<rparr>)))"

section \<open>Reading the live database (\<^verbatim>\<open>as_storable_dict\<close>)\<close>

definition master_query :: string where
  \<open>master_query = ''SELECT sql FROM sqlite_master WHERE sql IS NOT NULL AND name NOT LIKE "sqlite_%";''\<close>

definition select_query :: "string \<Rightarrow> string" where
  "select_query table = ''SELECT * FROM '' @ table @ '';''"

text \<open>
  \<^verbatim>\<open>rows = [dict(row) for row in rows]; data[table]['rows'] = rows\<close>: the entry of the
  table is the dict that the first loop made, and its key \<^verbatim>\<open>rows\<close> keeps its place.
\<close>

definition set_rows ::
  "string \<Rightarrow> ('f, 'o) row list \<Rightarrow> ('f, 'o) row \<Rightarrow> ('f, 'o) row" where
  "set_rows table rs data =
     map (\<lambda>(k, td). if k = table
            then (k, (case td of
                        PyDict kw \<Rightarrow> PyDict (dict_set ''rows'' (PyList (map PyDict rs)) kw)
                      | _ \<Rightarrow> td))
            else (k, td)) data"

text \<open>The second loop, \<^verbatim>\<open>for table, tabledata in data.items()\<close>, over the table names.\<close>

fun read_rows ::
  "('s, 'f, 'o) runtime \<Rightarrow> string list \<Rightarrow> ('f, 'o) row \<Rightarrow> (('f, 'o) row, 's, 't) prog" where
  "read_rows rt [] data st = (Inr data, st)"
| "read_rows rt (table # ts) data st =
     (case query rt (\<lambda>db. sql_select_all rt db table) (select_query table) st of
        (Inl e, st) \<Rightarrow> (Inl e, st)
      | (Inr rs, st) \<Rightarrow> read_rows rt ts (set_rows table rs data) st)"

definition as_storable_dict :: "('s, 'f, 'o) runtime \<Rightarrow> (('f, 'o) pyval, 's, 't) prog" where
  "as_storable_dict rt st =
    (case query rt (sql_master rt) master_query st of
       (Inl e, st) \<Rightarrow> (Inl e, st)
     | (Inr sources, st) \<Rightarrow>
         (case parse_sources sources [] of
            Inl e \<Rightarrow> (Inl e, st)
          | Inr data \<Rightarrow>
              (case read_rows rt (map fst data) data st of
                 (Inl e, st) \<Rightarrow> (Inl e, st)
               | (Inr data, st) \<Rightarrow> (Inr (PyDict data), st))))"

section \<open>Fingerprints and modification times\<close>

text \<open>\<^verbatim>\<open>hash_of_storable\<close>: the built-in \<^verbatim>\<open>hash\<close> of \<^verbatim>\<open>str(data)\<close>.\<close>

definition hash_of_storable :: "('s, 'f, 'o) runtime \<Rightarrow> ('f, 'o) pyval \<Rightarrow> int" where
  "hash_of_storable rt data = py_hash rt (py_str (str_float rt) (str_other rt) data)"

text \<open>The method \<^verbatim>\<open>hash\<close>\<close>

definition hash :: "('s, 'f, 'o) runtime \<Rightarrow> (int, 's, 't) prog" where
  "hash rt st =
    (case as_storable_dict rt st of
       (Inl e, st) \<Rightarrow> (Inl e, st)
     | (Inr data, st) \<Rightarrow> (Inr (hash_of_storable rt data), st))"

definition backed_up_hash :: "('s, 'f, 'o) runtime \<Rightarrow> (int, 's, 't) prog" where
  "backed_up_hash rt st =
    (case backup_file st of
       None \<Rightarrow> (Inl File_Not_Found, st)
     | Some (text, t) \<Rightarrow>
         (case json_load rt text of
            Inl e \<Rightarrow> (Inl e, st)
          | Inr data \<Rightarrow> (Inr (hash_of_storable rt data), st)))"

definition backup_is_same :: "('s, 'f, 'o) runtime \<Rightarrow> (bool, 's, 't) prog" where
  "backup_is_same rt st =
    (case hash rt st of
       (Inl e, st) \<Rightarrow> (Inl e, st)
     | (Inr h, st) \<Rightarrow>
         (case backed_up_hash rt st of
            (Inl e, st) \<Rightarrow> (Inl e, st)
          | (Inr h', st) \<Rightarrow> (Inr (h = h'), st)))"

text \<open>\<^verbatim>\<open>os.path.getmtime\<close> raises when the file is not there.\<close>

definition backup_mtime :: "('s, 't) state \<Rightarrow> error + 't" where
  "backup_mtime st = (case backup_file st of None \<Rightarrow> Inl File_Not_Found | Some (text, t) \<Rightarrow> Inr t)"

definition mtime :: "('s, 't) state \<Rightarrow> error + 't" where
  "mtime st = (case db_file st of None \<Rightarrow> Inl File_Not_Found | Some (db, t) \<Rightarrow> Inr t)"

definition backup_is_newer :: "('s, 'f, 'o) runtime \<Rightarrow> (bool, 's, 't::linorder) prog" where
  "backup_is_newer rt st =
    (case backup_is_same rt st of
       (Inl e, st) \<Rightarrow> (Inl e, st)
     | (Inr same, st) \<Rightarrow>
         if same then (Inr False, st)
         else (case backup_mtime st of
                 Inl e \<Rightarrow> (Inl e, st)
               | Inr bt \<Rightarrow>
                   (case mtime st of
                      Inl e \<Rightarrow> (Inl e, st)
                    | Inr t \<Rightarrow> (Inr (bt > t), st))))"

definition backup_is_older :: "('s, 'f, 'o) runtime \<Rightarrow> (bool, 's, 't::linorder) prog" where
  "backup_is_older rt st =
    (case backup_is_newer rt st of
       (Inl e, st) \<Rightarrow> (Inl e, st)
     | (Inr newer, st) \<Rightarrow>
         if newer then (Inr False, st)
         else (case backup_mtime st of
                 Inl e \<Rightarrow> (Inl e, st)
               | Inr bt \<Rightarrow>
                   (case mtime st of
                      Inl e \<Rightarrow> (Inl e, st)
                    | Inr t \<Rightarrow> (Inr (bt < t), st))))"

section \<open>Restore and refresh\<close>

text \<open>
  The list comprehension that builds \<^verbatim>\<open>create_statements\<close>, over the items of the
  decoded backup, up to the first table whose call raises.
\<close>

fun create_statements_of_items ::
  "('s, 'f, 'o) runtime \<Rightarrow> ('f, 'o) row \<Rightarrow> error + string list" where
  "create_statements_of_items rt [] = Inr []"
| "create_statements_of_items rt ((k, v) # items) =
     (case call_create_statement_from_data (str_float rt) (str_other rt)
             (truthy_float rt) (truthy_other rt) k v of
        Inl e \<Rightarrow> Inl e
      | Inr c \<Rightarrow>
          (case create_statements_of_items rt items of
             Inl e \<Rightarrow> Inl e
           | Inr cs \<Rightarrow> Inr (c # cs)))"

text \<open>\<^verbatim>\<open>backup_data.items()\<close> raises an \<^verbatim>\<open>AttributeError\<close> when the backup is not a dict.\<close>

definition create_statements_of :: "('s, 'f, 'o) runtime \<Rightarrow> ('f, 'o) pyval \<Rightarrow> error + string list" where
  "create_statements_of rt backup_data =
    (case backup_data of
       PyDict items \<Rightarrow> create_statements_of_items rt items
     | _ \<Rightarrow> Inl AttributeError)"

text \<open>
  The list comprehension that builds \<^verbatim>\<open>populate_statements\<close>: one list of insertion
  statements per table, all built before any of them runs.
\<close>

fun populate_all_items ::
  "('s, 'f, 'o) runtime \<Rightarrow> ('f, 'o) row \<Rightarrow> error + string list list" where
  "populate_all_items rt [] = Inr []"
| "populate_all_items rt ((k, v) # items) =
     (case call_populate_from_data (str_float rt) (truthy_other rt) k v of
        Inl e \<Rightarrow> Inl e
      | Inr sts \<Rightarrow>
          (case populate_all_items rt items of
             Inl e \<Rightarrow> Inl e
           | Inr rest \<Rightarrow> Inr (sts # rest)))"

definition populate_all :: "('s, 'f, 'o) runtime \<Rightarrow> ('f, 'o) pyval \<Rightarrow> error + string list list" where
  "populate_all rt backup_data =
    (case backup_data of
       PyDict items \<Rightarrow> populate_all_items rt items
     | _ \<Rightarrow> Inl AttributeError)"

text \<open>The loop \<^verbatim>\<open>for statements in populate_statements: self.execute_sql(statements)\<close>\<close>

fun execute_each :: "('s, 'f, 'o) runtime \<Rightarrow> string list list \<Rightarrow> (unit, 's, 't) prog" where
  "execute_each rt [] st = (Inr (), st)"
| "execute_each rt (statements # rest) st =
     (case execute_sql rt (Batch statements) st of
        (Inl e, st) \<Rightarrow> (Inl e, st)
      | (Inr u, st) \<Rightarrow> execute_each rt rest st)"

text \<open>
  \<^verbatim>\<open>load_backup\<close>: an existing database file is copied to a \<^verbatim>\<open>.bak\<close> file and removed;
  the backup is read; the statements that create the tables are built and run by one
  call of \<^verbatim>\<open>execute_sql\<close>; then the insertion statements are built, and each table is
  filled by a call of its own; at the end the session is marked recovered.
\<close>

definition load_backup :: "('s, 'f, 'o) runtime \<Rightarrow> (unit, 's, 't) prog" where
  "load_backup rt st =
    (let st = st\<lparr>events := events st @ [Restore]\<rparr>;
         st = (case db_file st of
                 Some (db, t) \<Rightarrow> st\<lparr>bak_files := bak_files st @ [db], db_file := None\<rparr>
               | None \<Rightarrow> st)
     in case backup_file st of
          None \<Rightarrow> (Inl File_Not_Found, st)
        | Some (text, t) \<Rightarrow>
            (case json_load rt text of
               Inl e \<Rightarrow> (Inl e, st)
             | Inr backup_data \<Rightarrow>
                 (case create_statements_of rt backup_data of
                    Inl e \<Rightarrow> (Inl e, st)
                  | Inr create_statements \<Rightarrow>
                      (case execute_sql rt (Batch create_statements) st of
                         (Inl e, st) \<Rightarrow> (Inl e, st)
                       | (Inr u, st) \<Rightarrow>
                           (case populate_all rt backup_data of
                              Inl e \<Rightarrow> (Inl e, st)
                            | Inr populate_statements \<Rightarrow>
                                (case execute_each rt populate_statements st of
                                   (Inl e, st) \<Rightarrow> (Inl e, st)
                                 | (Inr u, st) \<Rightarrow> (Inr (), st\<lparr>recovered := True\<rparr>)))))))"

definition maybe_load_backup :: "('s, 'f, 'o) runtime \<Rightarrow> (unit, 's, 't::linorder) prog" where
  "maybe_load_backup rt st =
    (if backup_file st = None then (Inr (), st)
     else if db_file st = None then load_backup rt st
     else (case backup_is_newer rt st of
             (Inl e, st) \<Rightarrow> (Inl e, st)
           | (Inr newer, st) \<Rightarrow> if newer then load_backup rt st else (Inr (), st)))"

text \<open>
  \<^verbatim>\<open>save_backup\<close>: \<^verbatim>\<open>open(self.backup_path, 'w')\<close> creates or empties the file,
  \<^verbatim>\<open>json.dump\<close> writes into it, and the final newline follows when \<^verbatim>\<open>json.dump\<close> has
  not raised.
\<close>

definition save_backup :: "('s, 'f, 'o) runtime \<Rightarrow> (unit, 's, 't) prog" where
  "save_backup rt st =
    (let st = st\<lparr>events := events st @ [Refresh]\<rparr>
     in case as_storable_dict rt st of
          (Inl e, st) \<Rightarrow> (Inl e, st)
        | (Inr data, st) \<Rightarrow>
            (case json_dump rt data of
               (text, Some e) \<Rightarrow> (Inl e, st\<lparr>backup_file := Some (text, clock st)\<rparr>)
             | (text, None) \<Rightarrow> (Inr (), st\<lparr>backup_file := Some (text @ [newline], clock st)\<rparr>)))"

definition maybe_save_backup :: "('s, 'f, 'o) runtime \<Rightarrow> (unit, 's, 't::linorder) prog" where
  "maybe_save_backup rt st =
    (if recovered st then (Inr (), st)
     else if backup_file st = None then save_backup rt st
     else (case backup_is_older rt st of
             (Inl e, st) \<Rightarrow> (Inl e, st)
           | (Inr older, st) \<Rightarrow> if older then save_backup rt st else (Inr (), st)))"

section \<open>The reconciliation pass\<close>

text \<open>
  \<^verbatim>\<open>with Database(**kw): pass\<close> of \<^verbatim>\<open>main\<close>: \<^verbatim>\<open>__init__\<close> clears \<^verbatim>\<open>recovered\<close>,
  \<^verbatim>\<open>__enter__\<close> is \<^verbatim>\<open>maybe_load_backup\<close>, and \<^verbatim>\<open>__exit__\<close> is \<^verbatim>\<open>maybe_save_backup\<close>, which
  the \<^verbatim>\<open>with\<close> statement runs only when \<^verbatim>\<open>__enter__\<close> has returned.
\<close>

definition reconcile :: "('s, 'f, 'o) runtime \<Rightarrow> (unit, 's, 't::linorder) prog" where
  "reconcile rt st =
    (let st = st\<lparr>recovered := False\<rparr>
     in case maybe_load_backup rt st of
          (Inl e, st) \<Rightarrow> (Inl e, st)
        | (Inr u, st) \<Rightarrow> maybe_save_backup rt st)"

section \<open>The specification's own terms\<close>

text \<open>
  The rendering of one column as the specification words it: name and datatype, then
  each optional part in the fixed order.
\<close>

definition column_text ::
  "('f \<Rightarrow> string) \<Rightarrow> ('o \<Rightarrow> string) \<Rightarrow> string \<times> ('f, 'o) column_spec \<Rightarrow> string" where
  "column_text fstr ostr nc =
     fst nc @ '' '' @ datatype' (snd nc)
     @ (if is_None (default (snd nc)) then [] else '' DEFAULT '' @ py_str fstr ostr (default (snd nc)))
     @ (if not_null (snd nc) then '' NOT NULL'' else [])
     @ (if unique (snd nc) then '' UNIQUE'' else [])
     @ (if primary_key (snd nc) then '' PRIMARY KEY'' else [])
     @ (if primary_key (snd nc) \<and> autoincrement (snd nc) then '' AUTOINCREMENT'' else [])"

text \<open>The \<^verbatim>\<open>users\<close> table of the specification's scenario.\<close>

definition users_columns :: "(string \<times> (unit, unit) column_spec) list" where
  "users_columns =
    [(''id'', \<lparr>datatype' = ''INTEGER'', default = PyNone, not_null = False, unique = False,
              primary_key = True, autoincrement = True\<rparr>),
     (''name'', \<lparr>datatype' = ''TEXT'', default = PyNone, not_null = True, unique = True,
                primary_key = False, autoincrement = False\<rparr>)]"

text \<open>
  The values an insertion statement can hold, and the literal each is written as: a
  number as \<^verbatim>\<open>str\<close> prints it, a text between double quotes with its own double
  quotes doubled.
\<close>

fun supported :: "('f, 'o) pyval \<Rightarrow> bool" where
  "supported (PyBool b) = True"
| "supported (PyInt i) = True"
| "supported (PyFloat x) = True"
| "supported (PyStr s) = True"
| "supported v = False"

fun sql_literal :: "('f \<Rightarrow> string) \<Rightarrow> ('f, 'o) pyval \<Rightarrow> string" where
  "sql_literal fstr (PyBool b) = (if b then ''True'' else ''False'')"
| "sql_literal fstr (PyInt i) = str_int i"
| "sql_literal fstr (PyFloat x) = fstr x"
| "sql_literal fstr (PyStr s) = [dquote] @ replace_dquote s @ [dquote]"
| "sql_literal fstr v = []"

text \<open>A store with one dict object, at address 0.\<close>

definition heap0 :: "(unit, unit) heap" where
  "heap0 = \<lparr>cells = (\<lambda>a. if a = 0 then [(''id'', PyInt 7), (''note'', PyNone)] else []),
            next_free = 1\<rparr>"

text \<open>
  The outer pattern \<^verbatim>\<open>CREATE TABLE <name> (<col_defs>)\<close>, with the semicolon the
  regular expression leaves optional (and the newline \<^verbatim>\<open>$\<close> allows at the end):
  \<open>sql\<close> has this shape with this name and these column definitions.
\<close>

definition create_table_shape :: "string \<Rightarrow> string \<Rightarrow> string \<Rightarrow> bool" where
  "create_table_shape sql name col_defs \<longleftrightarrow>
     name \<noteq> [] \<and> list_all is_word_char name \<and> newline \<notin> set col_defs
     \<and> (\<exists>semi nl. (semi = [] \<or> semi = '';'') \<and> (nl = [] \<or> nl = [newline])
           \<and> sql = ''CREATE TABLE '' @ name @ '' ('' @ col_defs @ '')'' @ semi @ nl)"

text \<open>
  The pattern as the specification writes it, \<^verbatim>\<open>CREATE TABLE <name> (<col_defs>);\<close>,
  with its final semicolon.
\<close>

definition create_table_shape_semicolon :: "string \<Rightarrow> string \<Rightarrow> string \<Rightarrow> bool" where
  "create_table_shape_semicolon sql name col_defs \<longleftrightarrow>
     sql = ''CREATE TABLE '' @ name @ '' ('' @ col_defs @ '');''"

section \<open>A small engine for the examples\<close>

text \<open>
  An engine to run the program on. A database is the list of the statements committed
  to it. \<^verbatim>\<open>CREATE TABLE\<close> is refused for a table that exists, and an insertion that is
  already there is refused when its table was created with a \<^verbatim>\<open>PRIMARY KEY\<close> or
  \<^verbatim>\<open>UNIQUE\<close> column, as a second row with the same key is; every other statement is
  accepted. The schema query gives back the \<^verbatim>\<open>CREATE TABLE\<close> statements, and a table has
  one row \<^verbatim>\<open>{id: 1}\<close> for each insertion into it.
\<close>

definition toy_creates :: "string \<Rightarrow> string \<Rightarrow> bool" where
  "toy_creates name c = (case create_re_match c of Some (n, cols) \<Rightarrow> n = name | None \<Rightarrow> False)"

definition toy_keyed :: "string \<Rightarrow> string \<Rightarrow> bool" where
  "toy_keyed ins c =
    (case create_re_match c of
       Some (n, cols) \<Rightarrow>
         strip_prefix (''INSERT INTO '' @ n @ '' '') ins \<noteq> None
         \<and> (is_substring ''PRIMARY KEY'' cols \<or> is_substring ''UNIQUE'' cols)
     | None \<Rightarrow> False)"

definition toy_execute :: "string list \<Rightarrow> string \<Rightarrow> error + string list" where
  "toy_execute db c =
    (case create_re_match c of
       Some (n, cols) \<Rightarrow>
         if list_ex (toy_creates n) db then Inl (Sqlite_Error ''table already exists'')
         else Inr (db @ [c])
     | None \<Rightarrow>
         if c \<in> set db \<and> list_ex (toy_keyed c) db then Inl (Sqlite_Error ''UNIQUE constraint failed'')
         else Inr (db @ [c]))"

definition toy_master :: "string list \<Rightarrow> error + string list" where
  "toy_master db = Inr (filter (\<lambda>c. strip_prefix ''CREATE TABLE '' c \<noteq> None) db)"

definition toy_select_all :: "string list \<Rightarrow> string \<Rightarrow> error + (unit, unit) row list" where
  "toy_select_all db table =
     Inr (map (\<lambda>c. [(''id'', PyInt 1)])
            (filter (\<lambda>c. strip_prefix (''INSERT INTO '' @ table @ '' '') c \<noteq> None) db))"

text \<open>
  The document of a database with one table \<^verbatim>\<open>t\<close>, created by
  \<^verbatim>\<open>CREATE TABLE t (id INTEGER)\<close>, and one row, as \<^verbatim>\<open>as_storable_dict\<close> builds it and
  \<^verbatim>\<open>save_backup\<close> writes it.
\<close>

definition toy_doc :: "(unit, unit) pyval" where
  "toy_doc =
    PyDict [(''t'', PyDict [(''rows'', PyList [PyDict [(''id'', PyInt 1)]]),
                           (''columns'', PyDict [(''id'', PyDict [(''datatype'', PyStr ''INTEGER'')])])])]"

text \<open>
  Two tables; the column of the second is its primary key, and the second table holds
  the same row twice, which no database accepts.
\<close>

definition toy_doc2 :: "(unit, unit) pyval" where
  "toy_doc2 =
    PyDict
     [(''a'', PyDict [(''rows'', PyList [PyDict [(''id'', PyInt 1)]]),
                      (''columns'', PyDict [(''id'', PyDict [(''datatype'', PyStr ''INTEGER'')])])]),
      (''b'', PyDict [(''rows'', PyList [PyDict [(''id'', PyInt 1)], PyDict [(''id'', PyInt 1)]]),
                      (''columns'', PyDict [(''id'', PyDict [(''datatype'', PyStr ''INTEGER''),
                                                            (''primary_key'', PyBool True)])])])]"

text \<open>
  The codec knows three backup texts, named by what they decode to, and writes a
  document as the list of its tables with their numbers of rows.
\<close>

definition toy_load :: "string \<Rightarrow> error + (unit, unit) pyval" where
  "toy_load text =
    (if text = ''{}'' then Inr (PyDict [])
     else if text = ''doc'' then Inr toy_doc
     else if text = ''doc2'' then Inr toy_doc2
     else Inl JSON_Error)"

definition toy_num_rows :: "(unit, unit) pyval \<Rightarrow> nat" where
  "toy_num_rows v =
    (case v of
       PyDict kw \<Rightarrow> (case map_of kw ''rows'' of Some (PyList rs) \<Rightarrow> length rs | _ \<Rightarrow> 0)
     | _ \<Rightarrow> 0)"

definition toy_dump :: "(unit, unit) pyval \<Rightarrow> string \<times> error option" where
  "toy_dump data =
    (case data of
       PyDict items \<Rightarrow>
         (concat (map (\<lambda>kv. fst kv @ '':'' @ str_nat (toy_num_rows (snd kv)) @ '';'') items), None)
     | _ \<Rightarrow> ([], None))"

text \<open>The hash of a string is the sum of its character codes plus the seed of the run.\<close>

definition toy_hash :: "int \<Rightarrow> string \<Rightarrow> int" where
  "toy_hash seed s = seed + int (sum_list (map of_char s))"

definition toy_rt :: "int \<Rightarrow> (string list, unit, unit) runtime" where
  "toy_rt seed =
    \<lparr>sql_execute = toy_execute, sql_master = toy_master, sql_select_all = toy_select_all,
     sql_empty = [], json_load = toy_load, json_dump = toy_dump,
     py_hash = toy_hash seed,
     str_float = (\<lambda>x. ''0.0''), str_other = (\<lambda>x. ''b'' @ [squote, squote]),
     truthy_float = (\<lambda>x. False), truthy_other = (\<lambda>x. False)\<rparr>"

text \<open>The live database that holds what \<open>toy_doc\<close> describes.\<close>

definition toy_db :: "string list" where
  "toy_db = [''CREATE TABLE t (id INTEGER)'', ''INSERT INTO t (id) VALUES (1);'']"

text \<open>
  Both files exist: the database file holds \<open>db\<close> and was modified at time \<open>t\<close>, the
  backup holds \<open>text\<close> and was modified at time \<open>bt\<close>; the pass runs at time 9.
\<close>

definition toy_state :: "string list \<Rightarrow> nat \<Rightarrow> string \<Rightarrow> nat \<Rightarrow> (string list, nat) state" where
  "toy_state db t text bt =
    \<lparr>dummy = False, recovered = False, db_file = Some (db, t), backup_file = Some (text, bt),
     bak_files = [], clock = 9, events = []\<rparr>"

text \<open>Only the backup exists.\<close>

definition toy_state_no_db :: "string \<Rightarrow> nat \<Rightarrow> (string list, nat) state" where
  "toy_state_no_db text bt =
    \<lparr>dummy = False, recovered = False, db_file = None, backup_file = Some (text, bt),
     bak_files = [], clock = 9, events = []\<rparr>"

section \<open>Properties of the statement builder\<close>

subsection \<open>Schema-definition statements\<close>

lemma column_spec_from_data_text:
  "column_spec_from_data fstr ostr n spec = column_text fstr ostr (n, spec)"
  by (simp add: column_spec_from_data_def column_text_def Let_def)

text \<open>
  Claim C7. For every table, \<^verbatim>\<open>create_statement_from_data\<close> gives
  \<^verbatim>\<open>CREATE TABLE <name> (<col1>, <col2>, ...);\<close> where each column is its name and
  datatype followed, in this order, by \<^verbatim>\<open>DEFAULT <value>\<close> when a default is present,
  \<^verbatim>\<open>NOT NULL\<close>, \<^verbatim>\<open>UNIQUE\<close> and \<^verbatim>\<open>PRIMARY KEY\<close> when set, and \<^verbatim>\<open>AUTOINCREMENT\<close> right
  after \<^verbatim>\<open>PRIMARY KEY\<close> only when the primary key is set too. The \<^verbatim>\<open>users\<close> table of the
  scenario gives exactly the statement the specification quotes.
\<close>

theorem create_statement_from_data_format:
  \<open>create_statement_from_data fstr ostr name cols =
     ''CREATE TABLE '' @ name @ '' ('' @ str_join '', '' (map (column_text fstr ostr) cols) @ '');''
   \<and> create_statement_from_data fstr' ostr' ''users'' users_columns =
     ''CREATE TABLE users (id INTEGER PRIMARY KEY AUTOINCREMENT, name TEXT NOT NULL UNIQUE);''\<close>
proof
  have "(\<lambda>(n, spec). column_spec_from_data fstr ostr n spec) = column_text fstr ostr"
    by (simp add: fun_eq_iff column_spec_from_data_text)
  then show "create_statement_from_data fstr ostr name cols =
     ''CREATE TABLE '' @ name @ '' ('' @ str_join '', '' (map (column_text fstr ostr) cols) @ '');''"
    by (simp add: create_statement_from_data_def)
next
  show \<open>create_statement_from_data fstr' ostr' ''users'' users_columns =
     ''CREATE TABLE users (id INTEGER PRIMARY KEY AUTOINCREMENT, name TEXT NOT NULL UNIQUE);''\<close>
    by (simp add: create_statement_from_data_def column_spec_from_data_def users_columns_def)
qed

text \<open>
  A column with a default, \<^verbatim>\<open>NOT NULL\<close>, and \<^verbatim>\<open>autoincrement\<close> set without
  \<^verbatim>\<open>primary_key\<close>: the default is printed first and \<^verbatim>\<open>AUTOINCREMENT\<close> is left out.
\<close>

theorem create_statement_from_data_format_witness:
  \<open>create_statement_from_data (\<lambda>x::unit. ''0.5'') (\<lambda>y::unit. ''[]'') ''t''
      [(''a'', \<lparr>datatype' = ''REAL'', default = PyFloat (), not_null = True, unique = False,
                primary_key = False, autoincrement = True\<rparr>)] =
     ''CREATE TABLE t (a REAL DEFAULT 0.5 NOT NULL);''\<close>
  using create_statement_from_data_format [of "\<lambda>x::unit. ''0.5''" "\<lambda>y::unit. ''[]''" "''t''"
      "[(''a'', \<lparr>datatype' = ''REAL'', default = PyFloat (), not_null = True, unique = False,
                primary_key = False, autoincrement = True\<rparr>)]"]
  by (simp add: column_text_def)

subsection \<open>Data-insertion statements\<close>

lemma item_is_None_iff:
  "distinct (map fst d) \<Longrightarrow> item_is_None d k \<longleftrightarrow> (\<exists>v. (k, v) \<in> set d \<and> is_None v)"
proof (cases "map_of d k")
  case None
  then have "k \<notin> fst ` set d" by (simp add: map_of_eq_None_iff)
  then have "\<And>v. (k, v) \<notin> set d" by force
  with None show ?thesis by (simp add: item_is_None_def)
next
  case (Some w)
  assume dist: "distinct (map fst d)"
  then have "\<And>v. (k, v) \<in> set d \<longleftrightarrow> v = w" using Some by (auto dest: eq_key_imp_eq_value)
  with Some show ?thesis by (simp add: item_is_None_def)
qed

text \<open>One turn of the deletion loop removes the pair of key \<open>k\<close> when its value is \<^verbatim>\<open>None\<close>.\<close>

lemma del_step:
  assumes "distinct (map fst d)"
  shows "(if item_is_None d k then dict_del k d else d) = filter (\<lambda>(k', v). \<not> (k' = k \<and> is_None v)) d"
proof (cases "item_is_None d k")
  case True
  then obtain v where v: "(k, v) \<in> set d" "is_None v"
    using assms item_is_None_iff by blast
  have "\<And>k' v'. (k', v') \<in> set d \<Longrightarrow> k' = k \<Longrightarrow> is_None v'"
    using v assms by (metis eq_key_imp_eq_value)
  then have "filter (\<lambda>(k', v). k' \<noteq> k) d = filter (\<lambda>(k', v). \<not> (k' = k \<and> is_None v)) d"
    by (intro filter_cong) auto
  with True show ?thesis by (simp add: dict_del_def)
next
  case False
  then have "\<And>k' v'. (k', v') \<in> set d \<Longrightarrow> \<not> (k' = k \<and> is_None v')"
    using assms item_is_None_iff by blast
  then have "filter (\<lambda>(k', v). \<not> (k' = k \<and> is_None v)) d = d"
    by (intro filter_True) auto
  with False show ?thesis by simp
qed

lemma del_none_loop_filter:
  "distinct (map fst d) \<Longrightarrow>
   del_none_loop d ks = filter (\<lambda>(k, v). \<not> (k \<in> set ks \<and> is_None v)) d"
proof (induction ks arbitrary: d)
  case Nil
  then show ?case by simp
next
  case (Cons k ks)
  let ?d' = "filter (\<lambda>(k', v). \<not> (k' = k \<and> is_None v)) d"
  have d': "distinct (map fst ?d')"
    using Cons.prems by (simp add: distinct_map_filter)
  have "del_none_loop d (k # ks) = del_none_loop ?d' ks"
    using del_step [OF Cons.prems, of k] by simp
  also have "\<dots> = filter (\<lambda>(k, v). \<not> (k \<in> set ks \<and> is_None v)) ?d'"
    by (rule Cons.IH [OF d'])
  also have "\<dots> = filter (\<lambda>(k', v). \<not> (k' \<in> set (k # ks) \<and> is_None v)) d"
  proof -
    have "\<And>x. x \<in> set d \<Longrightarrow>
        ((case x of (k', v) \<Rightarrow> \<not> (k' = k \<and> is_None v)) \<and> (case x of (k, v) \<Rightarrow> \<not> (k \<in> set ks \<and> is_None v)))
        = (case x of (k', v) \<Rightarrow> \<not> (k' \<in> set (k # ks) \<and> is_None v))"
      by (simp add: case_prod_unfold) blast
    then show ?thesis
      by (simp only: filter_filter cong: filter_cong)
  qed
  finally show ?case .
qed

text \<open>The whole loop, over all the keys, leaves the items whose value is not \<^verbatim>\<open>None\<close>.\<close>

lemma del_none_loop_all:
  assumes "distinct (map fst d)"
  shows "del_none_loop d (map fst d) = filter (\<lambda>(k, v). \<not> is_None v) d"
proof -
  have "filter (\<lambda>(k, v). \<not> (k \<in> set (map fst d) \<and> is_None v)) d = filter (\<lambda>(k, v). \<not> is_None v) d"
    by (intro filter_cong) force+
  then show ?thesis using del_none_loop_filter [OF assms, of "map fst d"] by simp
qed

lemma render_vals_spec:
  "render_vals fstr vs acc =
     (if \<forall>v \<in> set vs. supported v then Inr (acc @ map (sql_literal fstr) vs)
      else Inl Unknown_Type_ValueError)"
  by (induction fstr vs acc rule: render_vals.induct) auto

text \<open>
  Claim C8, as amended. For every row (a dict, so its keys are distinct),
  \<^verbatim>\<open>insert_statement_from_data\<close> drops every column whose value is \<^verbatim>\<open>None\<close> from both
  the column list and the value list, writes an \<^verbatim>\<open>int\<close> or a \<^verbatim>\<open>float\<close> as \<^verbatim>\<open>str\<close>
  prints it, and a \<^verbatim>\<open>bool\<close> likewise (\<^verbatim>\<open>True\<close> or \<^verbatim>\<open>False\<close>, since a \<^verbatim>\<open>bool\<close> is an
  \<^verbatim>\<open>int\<close> for \<^verbatim>\<open>isinstance\<close>), writes a text between double quotes with each double quote
  of it doubled, so that \<^verbatim>\<open>O"Brien\<close> becomes \<^verbatim>\<open>"O""Brien"\<close>, and raises the
  \<^verbatim>\<open>ValueError\<close> for a value of any other kind.
\<close>

theorem insert_statement_from_data_result:
  assumes "distinct (map fst data)"
  shows \<open>insert_statement_from_data fstr name data =
     (let kept = filter (\<lambda>(k, v). \<not> is_None v) data in
      if list_all supported (map snd kept)
      then Inr (''INSERT INTO '' @ name @ '' ('' @ str_join '','' (map fst kept) @ '') VALUES (''
                @ str_join '', '' (map (sql_literal fstr) (map snd kept)) @ '');'')
      else Inl Unknown_Type_ValueError)
    \<and> sql_literal fstr (PyStr ''O"Brien'') = ''"O""Brien"''\<close>
proof
  show "insert_statement_from_data fstr name data =
     (let kept = filter (\<lambda>(k, v). \<not> is_None v) data in
      if list_all supported (map snd kept)
      then Inr (''INSERT INTO '' @ name @ '' ('' @ str_join '','' (map fst kept) @ '') VALUES (''
                @ str_join '', '' (map (sql_literal fstr) (map snd kept)) @ '');'')
      else Inl Unknown_Type_ValueError)"
    using del_none_loop_all [OF assms]
    by (auto simp add: insert_statement_from_data_def insert_statement_of_def render_vals_spec
          list_all_iff Let_def)
next
  show \<open>sql_literal fstr (PyStr ''O"Brien'') = ''"O""Brien"''\<close>
    by (simp add: replace_dquote_def dquote_def)
qed

text \<open>A row with an integer, a \<^verbatim>\<open>None\<close>, a text with a double quote in it, and a float.\<close>

theorem insert_statement_from_data_result_witness:
  \<open>insert_statement_from_data (\<lambda>x::unit. ''1.5'') ''users''
     [(''id'', PyInt 1), (''age'', PyNone), (''name'', PyStr ''O"Brien''), (''w'', PyFloat ())
      :: string \<times> (unit, unit) pyval]
   = Inr ''INSERT INTO users (id,name,w) VALUES (1, "O""Brien", 1.5);''\<close>
  using insert_statement_from_data_result [of
     \<open>[(''id'', PyInt 1), (''age'', PyNone), (''name'', PyStr ''O"Brien''), (''w'', PyFloat ())
      :: string \<times> (unit, unit) pyval]\<close> "\<lambda>x::unit. ''1.5''" "''users''"]
  by (simp add: replace_dquote_def dquote_def str_int_def digit_char_def)

text \<open>
  The claim as the specification states it fails on a \<^verbatim>\<open>bool\<close>, which is none of
  integer, float, text and null: the JSON value \<^verbatim>\<open>true\<close> of a backup raises nothing
  and is written as \<^verbatim>\<open>True\<close>.
\<close>

theorem insert_statement_bool_counterexample:
  \<open>insert_statement_from_data (\<lambda>x::unit. ''1.5'') ''t'' [(''flag'', PyBool True :: (unit, unit) pyval)]
   = Inr ''INSERT INTO t (flag) VALUES (True);''\<close>
  by (simp add: insert_statement_from_data_def insert_statement_of_def item_is_None_def dict_del_def)

subsection \<open>The caller's row is not changed\<close>

lemma del_none_loop_heap_cells:
  "cells (del_none_loop_heap h a ks) = (cells h)(a := del_none_loop (cells h a) ks)"
  by (induction ks arbitrary: h) auto

lemma del_none_loop_heap_next_free:
  "next_free (del_none_loop_heap h a ks) = next_free h"
  by (induction ks arbitrary: h) auto

text \<open>
  Claim C10. Building an insertion statement does not change its input: after the call
  every dict object that was allocated before it, the caller's row among them, holds
  what it held before, although the columns whose value is \<^verbatim>\<open>None\<close> are deleted on the
  way; the deletions happen in a copy. The statement is the one computed from the
  contents of the caller's row.
\<close>

theorem insert_statement_from_data_heap_frame:
  assumes "data < next_free h"
  shows "(\<forall>a < next_free h. cells (snd (insert_statement_from_data_heap fstr name data h)) a = cells h a)
       \<and> cells (snd (insert_statement_from_data_heap fstr name data h)) data = cells h data
       \<and> fst (insert_statement_from_data_heap fstr name data h)
           = insert_statement_from_data fstr name (cells h data)"
  using assms
  by (simp add: insert_statement_from_data_heap_def dict_copy_def del_none_loop_heap_cells
        insert_statement_from_data_def Let_def)

text \<open>
  A row with a \<^verbatim>\<open>None\<close> in it: the row at address 0 keeps its \<^verbatim>\<open>note\<close> column, the
  copy at address 1 has lost it.
\<close>

theorem insert_statement_from_data_heap_frame_witness:
  "(0::nat) < next_free heap0
   \<and> cells (snd (insert_statement_from_data_heap (\<lambda>x. ''1.5'') ''t'' 0 heap0)) 0
       = [(''id'', PyInt 7), (''note'', PyNone)]
   \<and> cells (snd (insert_statement_from_data_heap (\<lambda>x. ''1.5'') ''t'' 0 heap0)) 1
       = [(''id'', PyInt 7)]
   \<and> fst (insert_statement_from_data_heap (\<lambda>x. ''1.5'') ''t'' 0 heap0)
       = Inr ''INSERT INTO t (id) VALUES (7);''"
proof -
  have lt: "(0::nat) < next_free heap0" by (simp add: heap0_def)
  have c1: "cells (snd (insert_statement_from_data_heap (\<lambda>x. ''1.5'') ''t'' 0 heap0)) 1
       = [(''id'', PyInt 7)]"
    by (simp add: insert_statement_from_data_heap_def dict_copy_def heap0_def
          item_is_None_def dict_del_def)
  have r: "insert_statement_from_data (\<lambda>x. ''1.5'') ''t'' (cells heap0 0)
       = Inr ''INSERT INTO t (id) VALUES (7);''"
    by (simp add: insert_statement_from_data_def insert_statement_of_def heap0_def
          item_is_None_def dict_del_def str_int_def digit_char_def)
  have c0: "cells heap0 0 = [(''id'', PyInt 7), (''note'', PyNone)]" by (simp add: heap0_def)
  show ?thesis
    using insert_statement_from_data_heap_frame [OF lt, of "\<lambda>x. ''1.5''" "''t''"] lt c1 r c0
    by simp
qed

section \<open>The schema parser fails exactly on the unsupported shapes\<close>

lemma strip_prefix_Some_iff: "strip_prefix p s = Some t \<longleftrightarrow> s = p @ t"
  by (induction p s rule: strip_prefix.induct) auto

lemma match_tail_Some_iff:
  "match_tail r = Some cd \<longleftrightarrow>
     newline \<notin> set cd \<and> (\<exists>semi nl. (semi = [] \<or> semi = '';'') \<and> (nl = [] \<or> nl = [newline])
        \<and> r = cd @ '')'' @ semi @ nl)"
proof
  assume m: "match_tail r = Some cd"
  define r1 where "r1 = (if r \<noteq> [] \<and> last r = newline then butlast r else r)"
  define r2 where "r2 = (if r1 \<noteq> [] \<and> last r1 = CHR '';'' then butlast r1 else r1)"
  obtain nl where nl: "nl = [] \<or> nl = [newline]" "r = r1 @ nl"
  proof (cases "r \<noteq> [] \<and> last r = newline")
    case True
    then have "r = r1 @ [newline]" by (simp add: r1_def) (metis append_butlast_last_id)
    then show ?thesis using that by blast
  next
    case False
    then have "r = r1 @ []" by (auto simp add: r1_def)
    then show ?thesis using that by blast
  qed
  obtain semi where semi: "semi = [] \<or> semi = '';''" "r1 = r2 @ semi"
  proof (cases "r1 \<noteq> [] \<and> last r1 = CHR '';''")
    case True
    then have "r1 = r2 @ '';''" by (simp add: r2_def) (metis append_butlast_last_id)
    then show ?thesis using that by blast
  next
    case False
    then have "r1 = r2 @ []" by (auto simp add: r2_def)
    then show ?thesis using that by blast
  qed
  from m have c: "r2 \<noteq> [] \<and> last r2 = CHR '')'' \<and> newline \<notin> set (butlast r2)" "cd = butlast r2"
    by (auto simp: match_tail_def Let_def r1_def r2_def split: if_splits)
  then have "r2 = cd @ '')''" by (metis append_butlast_last_id)
  with nl(2) semi(2) have "r = cd @ '')'' @ semi @ nl" by simp
  with nl(1) semi(1) have "\<exists>semi nl. (semi = [] \<or> semi = '';'') \<and> (nl = [] \<or> nl = [newline])
        \<and> r = cd @ '')'' @ semi @ nl" by blast
  moreover have "newline \<notin> set cd" using c by simp
  ultimately show "newline \<notin> set cd \<and> (\<exists>semi nl. (semi = [] \<or> semi = '';'') \<and> (nl = [] \<or> nl = [newline])
        \<and> r = cd @ '')'' @ semi @ nl)"
    by blast
next
  assume "newline \<notin> set cd \<and> (\<exists>semi nl. (semi = [] \<or> semi = '';'') \<and> (nl = [] \<or> nl = [newline])
        \<and> r = cd @ '')'' @ semi @ nl)"
  then obtain semi nl where a: "newline \<notin> set cd" "semi = [] \<or> semi = '';''"
      "nl = [] \<or> nl = [newline]" "r = cd @ '')'' @ semi @ nl"
    by blast
  have "match_tail (cd @ '')'' @ semi @ nl) = Some cd"
    using a(1,2,3)
    by (elim disjE) (simp_all add: match_tail_def Let_def newline_def butlast_append)
  with a(4) show "match_tail r = Some cd" by simp
qed

lemma not_word_space: "\<not> is_word_char CHR '' ''"
  by (simp add: is_word_char_def)

lemma takeWhile_word:
  "list_all is_word_char name \<Longrightarrow> takeWhile is_word_char (name @ CHR '' '' # r) = name"
  by (induction name) (auto simp: not_word_space)

lemma dropWhile_word:
  "list_all is_word_char name \<Longrightarrow> dropWhile is_word_char (name @ CHR '' '' # r) = CHR '' '' # r"
  by (induction name) (auto simp: not_word_space)

lemma create_re_match_iff:
  "create_re_match sql = Some (name, cd) \<longleftrightarrow> create_table_shape sql name cd"
proof
  assume m: "create_re_match sql = Some (name, cd)"
  then obtain t where t: "strip_prefix ''CREATE TABLE '' sql = Some t"
    by (auto simp: create_re_match_def split: option.splits)
  with m have n: "name = takeWhile is_word_char t" "name \<noteq> []"
    by (auto simp: create_re_match_def Let_def split: option.splits if_splits)
  with m t obtain r where r: "strip_prefix '' ('' (dropWhile is_word_char t) = Some r"
    by (auto simp: create_re_match_def Let_def split: option.splits if_splits)
  with m t n have mt: "match_tail r = Some cd"
    by (auto simp: create_re_match_def Let_def split: option.splits if_splits)
  have "t = name @ dropWhile is_word_char t" by (simp add: n)
  with r have tt: "t = name @ '' ('' @ r" by (simp only: strip_prefix_Some_iff)
  have w: "list_all is_word_char name"
    unfolding n list_all_iff by (metis set_takeWhileD)
  from t have "sql = ''CREATE TABLE '' @ t" by (simp only: strip_prefix_Some_iff)
  with tt mt n w show "create_table_shape sql name cd"
    unfolding create_table_shape_def match_tail_Some_iff by auto
next
  assume "create_table_shape sql name cd"
  then obtain semi nl where a: "name \<noteq> []" "list_all is_word_char name" "newline \<notin> set cd"
     "semi = [] \<or> semi = '';''" "nl = [] \<or> nl = [newline]"
     "sql = ''CREATE TABLE '' @ name @ '' ('' @ cd @ '')'' @ semi @ nl"
    unfolding create_table_shape_def by blast
  define r where "r = cd @ '')'' @ semi @ nl"
  have sp: "strip_prefix ''CREATE TABLE '' sql = Some (name @ CHR '' '' # CHR ''('' # r)"
    unfolding strip_prefix_Some_iff by (simp add: a r_def)
  have mt: "match_tail r = Some cd"
    unfolding match_tail_Some_iff r_def using a by blast
  have sp2: "strip_prefix '' ('' (CHR '' '' # CHR ''('' # r) = Some r"
    unfolding strip_prefix_Some_iff by simp
  show "create_re_match sql = Some (name, cd)"
    unfolding create_re_match_def sp
    by (simp only: option.case takeWhile_word [OF a(2)] dropWhile_word [OF a(2)] Let_def a(1) if_False sp2 mt)
qed

lemma parse_column_Inl_iff:
  "(\<exists>e. (parse_column cdata :: error + string \<times> ('f, 'o) pyval) = Inl e) \<longleftrightarrow> length (split_ws cdata) < 2"
proof (cases "split_ws cdata")
  case Nil
  then show ?thesis by (simp add: parse_column_def)
next
  case (Cons a as)
  then show ?thesis by (cases as) (simp_all add: parse_column_def)
qed

lemma parse_column_error:
  "(parse_column cdata :: error + string \<times> ('f, 'o) pyval) = Inl e \<Longrightarrow> e = Unpack_ValueError"
  by (auto simp: parse_column_def split: list.splits)

lemma parse_columns_Inl_iff:
  "(\<exists>e. (parse_columns cs acc :: error + ('f, 'o) row) = Inl e)
     \<longleftrightarrow> (\<exists>c \<in> set cs. length (split_ws c) < 2)"
proof (induction cs arbitrary: acc)
  case Nil
  then show ?case by simp
next
  case (Cons c cs)
  show ?case
  proof (cases "parse_column c :: error + string \<times> ('f, 'o) pyval")
    case (Inl e)
    then have "length (split_ws c) < 2" using parse_column_Inl_iff by blast
    with Inl show ?thesis by simp
  next
    case (Inr p)
    then have "\<not> length (split_ws c) < 2"
      using parse_column_Inl_iff [of c, where ?'f = 'f and ?'o = 'o] by auto
    with Inr Cons.IH [of "dict_set (fst p) (snd p) acc"] show ?thesis
      by (simp add: case_prod_unfold)
  qed
qed

lemma parse_columns_error:
  "(parse_columns cs acc :: error + ('f, 'o) row) = Inl e \<Longrightarrow> e = Unpack_ValueError"
  by (induction cs arbitrary: acc) (auto split: sum.splits dest: parse_column_error)

lemma split_ws_aux_spaces:
  "list_all is_space ws \<Longrightarrow> split_ws_aux cur ws = (if cur = [] then [] else [cur])"
  by (induction ws arbitrary: cur) auto

lemma split_ws_aux_append_spaces:
  "list_all is_space ws \<Longrightarrow> split_ws_aux cur (s @ ws) = split_ws_aux cur s"
  by (induction s arbitrary: cur) (auto simp: split_ws_aux_spaces)

lemma split_ws_dropWhile: "split_ws_aux [] (dropWhile is_space s) = split_ws_aux [] s"
  by (induction s) auto

lemma split_ws_strip: "split_ws (strip s) = split_ws s"
proof -
  define t where "t = dropWhile is_space s"
  define ws where "ws = rev (takeWhile is_space (rev t))"
  have ws: "list_all is_space ws"
    unfolding ws_def list_all_iff by (auto dest: set_takeWhileD)
  have "rev t = takeWhile is_space (rev t) @ dropWhile is_space (rev t)" by simp
  then have "t = rev (dropWhile is_space (rev t)) @ ws"
    unfolding ws_def by (metis rev_append rev_rev_ident)
  then have "split_ws_aux [] t = split_ws_aux [] (rev (dropWhile is_space (rev t)))"
    using split_ws_aux_append_spaces [OF ws] by metis
  then show ?thesis
    by (simp add: split_ws_def strip_def t_def split_ws_dropWhile)
qed

text \<open>The pattern matches a string in one way only.\<close>

lemma create_table_shape_unique:
  "create_table_shape sql name cd \<Longrightarrow> create_table_shape sql name' cd' \<Longrightarrow> name' = name \<and> cd' = cd"
  by (metis create_re_match_iff option.inject prod.inject)

text \<open>
  Claim C6, as amended. For every schema-definition string, the parser fails exactly when
  the outer pattern \<^verbatim>\<open>CREATE TABLE <name> (<col_defs>)\<close>, with or without a final
  semicolon, does not match the string (taken as one line), or some fragment between the
  commas of \<^verbatim>\<open><col_defs>\<close> has fewer than two tokens separated by white space. The code
  has no parse error of its own: the first failure is a plain \<^verbatim>\<open>Exception\<close> with the
  message \<^verbatim>\<open>Malformed SQL from db\<close>, the second the \<^verbatim>\<open>ValueError\<close> that the unpacking
  of the tokens raises.
\<close>

theorem parse_create_fails_iff:
  "(\<forall>e. (parse_create sql :: error + string \<times> ('f, 'o) pyval) = Inl e \<longleftrightarrow>
      (\<not> (\<exists>name col_defs. create_table_shape (join_lines sql) name col_defs)
         \<and> e = Malformed_SQL (join_lines sql))
      \<or> ((\<exists>name col_defs. create_table_shape (join_lines sql) name col_defs
            \<and> (\<exists>frag \<in> set (split_comma col_defs). length (split_ws frag) < 2))
         \<and> e = Unpack_ValueError))"
proof (cases "create_re_match (join_lines sql)")
  case None
  then have no: "\<not> (\<exists>name col_defs. create_table_shape (join_lines sql) name col_defs)"
    using create_re_match_iff by (metis option.distinct(1))
  have "(parse_create sql :: error + string \<times> ('f, 'o) pyval) = Inl (Malformed_SQL (join_lines sql))"
    using None by (simp add: parse_create_def)
  with no show ?thesis by auto
next
  case (Some p)
  obtain name cd where p: "p = (name, cd)" by (cases p)
  with Some have sh: "create_table_shape (join_lines sql) name cd"
    using create_re_match_iff by simp
  let ?pc = "parse_columns (map strip (split_comma cd)) [] :: error + ('f, 'o) row"
  have short: "(\<exists>e. ?pc = Inl e) \<longleftrightarrow> (\<exists>frag \<in> set (split_comma cd). length (split_ws frag) < 2)"
    by (simp add: parse_columns_Inl_iff split_ws_strip)
  have uniq: "\<And>n c. create_table_shape (join_lines sql) n c \<Longrightarrow> c = cd"
    using sh create_table_shape_unique by blast
  have ex: "(\<exists>name col_defs. create_table_shape (join_lines sql) name col_defs
            \<and> (\<exists>frag \<in> set (split_comma col_defs). length (split_ws frag) < 2))
         \<longleftrightarrow> (\<exists>frag \<in> set (split_comma cd). length (split_ws frag) < 2)"
    using sh uniq by blast
  have pc: "(parse_create sql :: error + string \<times> ('f, 'o) pyval) =
        (case ?pc of Inl e \<Rightarrow> Inl e
         | Inr cols \<Rightarrow> Inr (name, PyDict [(''rows'', PyList []), (''columns'', PyDict cols)]))"
    using Some p by (simp add: parse_create_def)
  show ?thesis
  proof (cases ?pc)
    case (Inl e')
    then have e': "e' = Unpack_ValueError" by (rule parse_columns_error)
    have "\<exists>frag \<in> set (split_comma cd). length (split_ws frag) < 2"
      using short Inl by blast
    with pc Inl e' sh ex show ?thesis by auto
  next
    case (Inr cols)
    then have "\<not> (\<exists>frag \<in> set (split_comma cd). length (split_ws frag) < 2)"
      using short by simp
    with pc Inr sh ex show ?thesis by auto
  qed
qed

text \<open>
  A definition whose second column has a name and no datatype: the pattern matches, the
  fragment \<^verbatim>\<open>b\<close> has one token, and the parser raises the \<^verbatim>\<open>ValueError\<close>.
\<close>

theorem parse_create_fails_iff_witness:
  "(parse_create ''CREATE TABLE t (a INT, b)'' :: error + string \<times> (unit, unit) pyval)
     = Inl Unpack_ValueError
   \<and> (\<exists>name col_defs. create_table_shape (join_lines ''CREATE TABLE t (a INT, b)'') name col_defs
         \<and> (\<exists>frag \<in> set (split_comma col_defs). length (split_ws frag) < 2))"
proof -
  have p: "(parse_create ''CREATE TABLE t (a INT, b)'' :: error + string \<times> (unit, unit) pyval)
     = Inl Unpack_ValueError"
    by code_simp
  from p parse_create_fails_iff [of "''CREATE TABLE t (a INT, b)''", where ?'f = unit and ?'o = unit]
  have "(\<exists>name col_defs. create_table_shape (join_lines ''CREATE TABLE t (a INT, b)'') name col_defs
         \<and> (\<exists>frag \<in> set (split_comma col_defs). length (split_ws frag) < 2))"
    by blast
  with p show ?thesis by blast
qed

text \<open>
  The claim as the specification states it has the semicolon in the pattern and one parse
  error. The definition that \<^verbatim>\<open>sqlite_master\<close> holds for a table has no semicolon: it
  does not match the pattern as written, and the parser accepts it.
\<close>

theorem parse_create_no_semicolon_counterexample:
  "(parse_create ''CREATE TABLE t (id INTEGER)'' :: error + string \<times> (unit, unit) pyval)
     = Inr (''t'', PyDict [(''rows'', PyList []),
                           (''columns'', PyDict [(''id'', PyDict [(''datatype'', PyStr ''INTEGER'')])])])
   \<and> \<not> (\<exists>name col_defs. create_table_shape_semicolon ''CREATE TABLE t (id INTEGER)'' name col_defs)"
proof
  show "(parse_create ''CREATE TABLE t (id INTEGER)'' :: error + string \<times> (unit, unit) pyval)
     = Inr (''t'', PyDict [(''rows'', PyList []),
                           (''columns'', PyDict [(''id'', PyDict [(''datatype'', PyStr ''INTEGER'')])])])"
    by code_simp
next
  show "\<not> (\<exists>name col_defs. create_table_shape_semicolon ''CREATE TABLE t (id INTEGER)'' name col_defs)"
  proof
    assume "\<exists>name col_defs. create_table_shape_semicolon ''CREATE TABLE t (id INTEGER)'' name col_defs"
    then obtain name col_defs where
      "''CREATE TABLE t (id INTEGER)'' = ''CREATE TABLE '' @ name @ '' ('' @ col_defs @ '');''"
      unfolding create_table_shape_semicolon_def by blast
    then have "last ''CREATE TABLE t (id INTEGER)'' = last (''CREATE TABLE '' @ name @ '' ('' @ col_defs @ '');'')"
      by simp
    then show False by simp
  qed
qed

section \<open>Properties of the reconciliation policy\<close>

lemma connect_existing: "db_file st = Some (db, t) \<Longrightarrow> connect rt st = (db, st)"
  by (simp add: connect_def)

lemma connect_frame: "\<exists>x. snd (connect rt st) = st\<lparr>db_file := x\<rparr> \<and> x \<noteq> None"
  by (cases "db_file st") (auto simp: connect_def intro: exI [of _ "db_file st"])

lemma query_existing:
  "db_file st = Some (db, t) \<Longrightarrow>
   query rt fetch q st =
     ((case fetch db of Inl e \<Rightarrow> Inl e
       | Inr results \<Rightarrow> if results = [] then Inl (NoResults q) else Inr results), st)"
  by (simp add: query_def connect_existing split: sum.splits)

lemma query_frame: "\<exists>x. snd (query rt fetch q st) = st\<lparr>db_file := x\<rparr> \<and> x \<noteq> None"
proof -
  obtain x where x: "snd (connect rt st) = st\<lparr>db_file := x\<rparr>" "x \<noteq> None"
    using connect_frame by blast
  have "snd (query rt fetch q st) = snd (connect rt st)"
    by (simp add: query_def case_prod_unfold Let_def split: sum.splits)
  with x show ?thesis by auto
qed

lemma read_rows_existing:
  "db_file st \<noteq> None \<Longrightarrow> snd (read_rows rt ts data st) = st"
proof (induction ts arbitrary: data)
  case Nil
  then show ?case by simp
next
  case (Cons table ts)
  then obtain db t where d: "db_file st = Some (db, t)" by auto
  show ?case
    using Cons by (simp add: query_existing [OF d] split: sum.splits)
qed

lemma read_rows_frame:
  "\<exists>x. snd (read_rows rt ts data st) = st\<lparr>db_file := x\<rparr>"
proof (induction ts arbitrary: data st)
  case Nil
  show ?case by (auto intro: exI [of _ "db_file st"])
next
  case (Cons table ts)
  let ?q = "query rt (\<lambda>db. sql_select_all rt db table) (select_query table) st"
  obtain x where x: "snd ?q = st\<lparr>db_file := x\<rparr>"
    using query_frame by blast
  show ?case
  proof (cases ?q)
    case (Pair r st')
    with x have st': "st' = st\<lparr>db_file := x\<rparr>" by simp
    show ?thesis
    proof (cases r)
      case (Inl e)
      with Pair st' show ?thesis by auto
    next
      case (Inr rs)
      obtain y where "snd (read_rows rt ts (set_rows table rs data) st') = st'\<lparr>db_file := y\<rparr>"
        using Cons.IH by blast
      with Pair Inr st' show ?thesis by auto
    qed
  qed
qed

lemma wrap_dict:
  "(case p of (Inl e, st) \<Rightarrow> (Inl e, st) | (Inr data, st) \<Rightarrow> (Inr (PyDict data), st))
     = (map_sum id PyDict (fst p), snd p)"
proof (cases p)
  case (Pair r st)
  then show ?thesis by (cases r) simp_all
qed

lemma as_storable_dict_existing:
  "db_file st \<noteq> None \<Longrightarrow> snd (as_storable_dict rt st) = st"
proof -
  assume a: "db_file st \<noteq> None"
  then obtain db t where d: "db_file st = Some (db, t)" by auto
  show ?thesis
    by (simp add: as_storable_dict_def wrap_dict query_existing [OF d] read_rows_existing [OF a]
          split: sum.splits)
qed

lemma as_storable_dict_frame:
  fixes rt :: "('s, 'f, 'o) runtime"
  shows "\<exists>x. snd (as_storable_dict rt st) = st\<lparr>db_file := x\<rparr>"
proof -
  let ?q = "query rt (sql_master rt) master_query st"
  obtain x where x: "snd ?q = st\<lparr>db_file := x\<rparr>"
    using query_frame by blast
  show ?thesis
  proof (cases ?q)
    case (Pair r st')
    with x have st': "st' = st\<lparr>db_file := x\<rparr>" by simp
    show ?thesis
    proof (cases r)
      case (Inl e)
      with Pair st' show ?thesis by (auto simp: as_storable_dict_def)
    next
      case (Inr sources)
      show ?thesis
      proof (cases "parse_sources sources [] :: error + ('f, 'o) row")
        case (Inl e)
        with Pair \<open>r = Inr sources\<close> st' show ?thesis by (auto simp: as_storable_dict_def)
      next
        case (Inr data)
        obtain y where "snd (read_rows rt (map fst data) data st') = st'\<lparr>db_file := y\<rparr>"
          using read_rows_frame by blast
        with Pair \<open>r = Inr sources\<close> Inr st' show ?thesis
          by (auto simp: as_storable_dict_def wrap_dict)
      qed
    qed
  qed
qed

lemma backed_up_hash_state: "snd (backed_up_hash rt st) = st"
  by (simp add: backed_up_hash_def split: option.splits sum.splits)

lemma hash_existing: "db_file st \<noteq> None \<Longrightarrow> snd (hash rt st) = st"
  using as_storable_dict_existing [of st rt]
  by (auto simp add: hash_def split: prod.splits sum.splits)

lemma backup_is_same_existing: "db_file st \<noteq> None \<Longrightarrow> snd (backup_is_same rt st) = st"
  using hash_existing [of st rt] backed_up_hash_state [of rt st]
  by (auto simp add: backup_is_same_def split: prod.splits sum.splits)

lemma backup_is_newer_both:
  assumes "db_file st = Some (db, t)" and "backup_file st = Some (text, bt)"
    and "fst (backup_is_same rt st) = Inr same"
  shows "backup_is_newer rt st = (Inr (\<not> same \<and> bt > t), st)"
proof -
  have "snd (backup_is_same rt st) = st"
    using assms(1) by (simp add: backup_is_same_existing)
  with assms(3) have "backup_is_same rt st = (Inr same, st)"
    by (metis prod.collapse)
  then show ?thesis
    by (simp add: backup_is_newer_def backup_mtime_def mtime_def assms(1,2))
qed

lemma backup_is_older_both:
  assumes "db_file st = Some (db, t)" and "backup_file st = Some (text, bt)"
    and "fst (backup_is_same rt st) = Inr same"
  shows "backup_is_older rt st = (Inr ((same \<or> \<not> bt > t) \<and> bt < t), st)"
  by (simp add: backup_is_older_def backup_is_newer_both [OF assms] backup_mtime_def mtime_def assms(1,2))

lemma execute_sql_frame: "\<exists>x. snd (execute_sql rt cmd st) = st\<lparr>db_file := x\<rparr>"
proof (cases "dummy st")
  case True
  then show ?thesis by (auto simp: execute_sql_def intro: exI [of _ "db_file st"])
next
  case False
  obtain x where x: "snd (connect rt st) = st\<lparr>db_file := x\<rparr>"
    using connect_frame by blast
  obtain db st' where c: "connect rt st = (db, st')" by (cases "connect rt st")
  with x have st': "st' = st\<lparr>db_file := x\<rparr>" by simp
  show ?thesis
    using False c st' by (auto simp: execute_sql_def split: sum.splits)
qed

lemma execute_each_frame: "\<exists>x. snd (execute_each rt bs st) = st\<lparr>db_file := x\<rparr>"
proof (induction bs arbitrary: st)
  case Nil
  show ?case by (auto intro: exI [of _ "db_file st"])
next
  case (Cons b bs)
  obtain x where x: "snd (execute_sql rt (Batch b) st) = st\<lparr>db_file := x\<rparr>"
    using execute_sql_frame by blast
  obtain r st' where e: "execute_sql rt (Batch b) st = (r, st')" by (cases "execute_sql rt (Batch b) st")
  with x have st': "st' = st\<lparr>db_file := x\<rparr>" by simp
  show ?case
  proof (cases r)
    case (Inl err)
    with e st' show ?thesis by auto
  next
    case (Inr u)
    obtain y where "snd (execute_each rt bs st') = st'\<lparr>db_file := y\<rparr>"
      using Cons.IH by blast
    with e Inr st' show ?thesis by auto
  qed
qed

lemma load_backup_events:
  fixes rt :: "('s, 'f, 'o) runtime"
  shows "events (snd (load_backup rt st)) = events st @ [Restore]
     \<and> (fst (load_backup rt st) = Inr () \<longrightarrow> recovered (snd (load_backup rt st)))"
proof -
  define st1 where "st1 = st\<lparr>events := events st @ [Restore]\<rparr>"
  define st2 where "st2 = (case db_file st1 of
                 Some (db, t) \<Rightarrow> st1\<lparr>bak_files := bak_files st1 @ [db], db_file := None\<rparr>
               | None \<Rightarrow> st1)"
  have ev2: "events st2 = events st @ [Restore]"
    by (simp add: st2_def st1_def split: option.splits)
  show ?thesis
  proof (cases "backup_file st2")
    case None
    then show ?thesis
      using ev2 by (simp add: load_backup_def Let_def flip: st1_def st2_def)
  next
    case (Some p)
    obtain jtext t where p: "p = (jtext, t)" by (cases p)
    show ?thesis
    proof (cases "json_load rt jtext")
      case (Inl e)
      then show ?thesis
        using ev2 Some p by (simp add: load_backup_def Let_def flip: st1_def st2_def)
    next
      case (Inr backup_data)
      show ?thesis
      proof (cases "create_statements_of rt backup_data")
        case (Inl e)
        then show ?thesis
          using ev2 Some p Inr by (simp add: load_backup_def Let_def flip: st1_def st2_def)
      next
        case cs: (Inr cs)
        let ?e = "execute_sql rt (Batch cs) st2"
        obtain x where x: "snd ?e = st2\<lparr>db_file := x\<rparr>"
          using execute_sql_frame by blast
        obtain r st3 where e: "?e = (r, st3)" by (cases ?e)
        with x have st3: "st3 = st2\<lparr>db_file := x\<rparr>" by simp
        show ?thesis
        proof (cases r)
          case (Inl err)
          then show ?thesis
            using ev2 Some p Inr cs e st3
            by (simp add: load_backup_def Let_def flip: st1_def st2_def)
        next
          case u: (Inr u)
          show ?thesis
          proof (cases "populate_all rt backup_data")
            case (Inl err)
            then show ?thesis
              using ev2 Some p Inr cs e st3 u
              by (simp add: load_backup_def Let_def flip: st1_def st2_def)
          next
            case pops: (Inr pops)
            obtain y where y: "snd (execute_each rt pops st3) = st3\<lparr>db_file := y\<rparr>"
              using execute_each_frame by blast
            obtain r' st4 where ee: "execute_each rt pops st3 = (r', st4)"
              by (cases "execute_each rt pops st3")
            with y have st4: "st4 = st3\<lparr>db_file := y\<rparr>" by simp
            show ?thesis
              using ev2 Some p Inr cs e st3 u pops ee st4
              by (cases r') (simp_all add: load_backup_def Let_def flip: st1_def st2_def)
          qed
        qed
      qed
    qed
  qed
qed

lemma save_backup_events:
  fixes rt :: "('s, 'f, 'o) runtime"
  shows "events (snd (save_backup rt st)) = events st @ [Refresh]"
proof -
  define st1 where "st1 = st\<lparr>events := events st @ [Refresh]\<rparr>"
  obtain x where x: "snd (as_storable_dict rt st1) = st1\<lparr>db_file := x\<rparr>"
    using as_storable_dict_frame by blast
  obtain r st2 where a: "as_storable_dict rt st1 = (r, st2)" by (cases "as_storable_dict rt st1")
  with x have st2: "st2 = st1\<lparr>db_file := x\<rparr>" by simp
  show ?thesis
    using a st2
    by (cases r) (auto simp add: save_backup_def Let_def st1_def split: prod.splits option.splits)
qed

lemma read_rows_result:
  "db_file st = Some (db, t) \<Longrightarrow> db_file st' = Some (db, t') \<Longrightarrow>
   fst (read_rows rt ts data st) = fst (read_rows rt ts data st')"
proof (induction ts arbitrary: data)
  case Nil
  show ?case by simp
next
  case (Cons table ts)
  show ?case
    using Cons.IH [OF Cons.prems]
    by (simp add: query_existing [OF Cons.prems(1)] query_existing [OF Cons.prems(2)]
          split: sum.splits)
qed

lemma as_storable_dict_result:
  "db_file st = Some (db, t) \<Longrightarrow> db_file st' = Some (db, t') \<Longrightarrow>
   fst (as_storable_dict rt st) = fst (as_storable_dict rt st')"
  using read_rows_result [of st db t st' t' rt]
  by (simp add: as_storable_dict_def wrap_dict query_existing split: sum.splits)

lemma backup_is_same_result:
  assumes "db_file st = Some (db, t)" and "db_file st' = Some (db, t')"
    and "backup_file st' = backup_file st"
  shows "fst (backup_is_same rt st') = fst (backup_is_same rt st)"
proof -
  have a: "as_storable_dict rt st = (fst (as_storable_dict rt st), st)"
    using as_storable_dict_existing [of st rt] assms(1) by (metis option.distinct(1) prod.collapse)
  have a': "as_storable_dict rt st' = (fst (as_storable_dict rt st), st')"
    using as_storable_dict_existing [of st' rt] as_storable_dict_result [OF assms(1,2), of rt] assms(2)
    by (metis option.distinct(1) prod.collapse)
  show ?thesis
    unfolding backup_is_same_def hash_def backed_up_hash_def
    by (subst a, subst a') (simp add: assms(3) split: sum.splits option.splits)
qed

lemma hash_frame:
  fixes rt :: "('s, 'f, 'o) runtime"
  shows "\<exists>x. snd (hash rt st) = st\<lparr>db_file := x\<rparr>"
proof -
  obtain x where "snd (as_storable_dict rt st) = st\<lparr>db_file := x\<rparr>"
    using as_storable_dict_frame by blast
  then show ?thesis
    by (auto simp: hash_def split: prod.splits sum.splits)
qed

lemma backup_is_same_frame:
  fixes rt :: "('s, 'f, 'o) runtime"
  shows "\<exists>x. snd (backup_is_same rt st) = st\<lparr>db_file := x\<rparr>"
proof -
  obtain x where x: "snd (hash rt st) = st\<lparr>db_file := x\<rparr>"
    using hash_frame by blast
  obtain r st1 where h: "hash rt st = (r, st1)" by (cases "hash rt st")
  with x have st1: "st1 = st\<lparr>db_file := x\<rparr>" by simp
  have "snd (backed_up_hash rt st1) = st1" by (rule backed_up_hash_state)
  then show ?thesis
    using h st1 by (cases r) (auto simp: backup_is_same_def split: prod.splits sum.splits)
qed

lemma backup_is_newer_frame:
  fixes rt :: "('s, 'f, 'o) runtime"
  shows "\<exists>x. snd (backup_is_newer rt st) = st\<lparr>db_file := x\<rparr>"
proof -
  obtain x where "snd (backup_is_same rt st) = st\<lparr>db_file := x\<rparr>"
    using backup_is_same_frame by blast
  then show ?thesis
    by (auto simp: backup_is_newer_def split: prod.splits sum.splits)
qed

lemma backup_is_older_frame:
  fixes rt :: "('s, 'f, 'o) runtime"
  shows "\<exists>x. snd (backup_is_older rt st) = st\<lparr>db_file := x\<rparr>"
proof -
  obtain x where "snd (backup_is_newer rt st) = st\<lparr>db_file := x\<rparr>"
    using backup_is_newer_frame by blast
  then show ?thesis
    by (auto simp: backup_is_older_def split: prod.splits sum.splits)
qed

lemma maybe_load_backup_cases:
  fixes rt :: "('s, 'f, 'o) runtime"
  shows "(events (snd (maybe_load_backup rt st)) = events st
          \<and> recovered (snd (maybe_load_backup rt st)) = recovered st)
       \<or> (events (snd (maybe_load_backup rt st)) = events st @ [Restore]
          \<and> (fst (maybe_load_backup rt st) = Inr () \<longrightarrow> recovered (snd (maybe_load_backup rt st))))"
proof (cases "backup_file st = None \<or> db_file st = None")
  case True
  then show ?thesis
    using load_backup_events [of rt st] by (auto simp: maybe_load_backup_def)
next
  case False
  obtain x where x: "snd (backup_is_newer rt st) = st\<lparr>db_file := x\<rparr>"
    using backup_is_newer_frame by blast
  obtain r st1 where n: "backup_is_newer rt st = (r, st1)" by (cases "backup_is_newer rt st")
  with x have st1: "st1 = st\<lparr>db_file := x\<rparr>" by simp
  show ?thesis
  proof (cases r)
    case (Inl e)
    with False n st1 show ?thesis by (auto simp add: maybe_load_backup_def)
  next
    case (Inr newer)
    with False n st1 load_backup_events [of rt st1] show ?thesis
      by (auto simp: maybe_load_backup_def)
  qed
qed

lemma maybe_save_backup_recovered: "recovered st \<Longrightarrow> maybe_save_backup rt st = (Inr (), st)"
  by (simp add: maybe_save_backup_def)

lemma maybe_save_backup_cases:
  fixes rt :: "('s, 'f, 'o) runtime"
  shows "events (snd (maybe_save_backup rt st)) = events st
       \<or> events (snd (maybe_save_backup rt st)) = events st @ [Refresh]"
proof (cases "recovered st \<or> backup_file st = None")
  case True
  then show ?thesis
    using save_backup_events [of rt st] by (auto simp: maybe_save_backup_def)
next
  case False
  obtain x where x: "snd (backup_is_older rt st) = st\<lparr>db_file := x\<rparr>"
    using backup_is_older_frame by blast
  obtain r st1 where n: "backup_is_older rt st = (r, st1)" by (cases "backup_is_older rt st")
  with x have st1: "st1 = st\<lparr>db_file := x\<rparr>" by simp
  show ?thesis
  proof (cases r)
    case (Inl e)
    with False n st1 show ?thesis by (auto simp add: maybe_save_backup_def)
  next
    case (Inr older)
    with False n st1 save_backup_events [of rt st1] show ?thesis
      by (auto simp: maybe_save_backup_def)
  qed
qed

text \<open>
  Claim C5. In one reconciliation pass a restore and a refresh never both occur: the pass
  adds nothing to the log, or one restore, or one refresh. A restore that returns has
  marked the session recovered, and the exit step of a recovered session does nothing.
\<close>

theorem reconcile_never_both:
  fixes rt :: "('s, 'f, 'o) runtime" and st :: "('s, 't::linorder) state"
  shows "(events (snd (reconcile rt st)) = events st
          \<or> events (snd (reconcile rt st)) = events st @ [Restore]
          \<or> events (snd (reconcile rt st)) = events st @ [Refresh])
       \<and> (fst (load_backup rt st) = Inr () \<longrightarrow> recovered (snd (load_backup rt st)))
       \<and> (recovered st \<longrightarrow> maybe_save_backup rt st = (Inr (), st))"
proof -
  define st0 where "st0 = st\<lparr>recovered := False\<rparr>"
  obtain r st1 where l: "maybe_load_backup rt st0 = (r, st1)" by (cases "maybe_load_backup rt st0")
  have ev0: "events st0 = events st" by (simp add: st0_def)
  have "events (snd (reconcile rt st)) = events st
          \<or> events (snd (reconcile rt st)) = events st @ [Restore]
          \<or> events (snd (reconcile rt st)) = events st @ [Refresh]"
  proof (cases r)
    case (Inl e)
    with l have "snd (reconcile rt st) = st1"
      by (simp add: reconcile_def Let_def flip: st0_def)
    with maybe_load_backup_cases [of rt st0] l ev0 show ?thesis by auto
  next
    case (Inr u)
    with l have rec: "reconcile rt st = maybe_save_backup rt st1"
      by (simp add: reconcile_def Let_def flip: st0_def)
    from maybe_load_backup_cases [of rt st0] l Inr ev0
    consider "events st1 = events st" | "events st1 = events st @ [Restore]" "recovered st1"
      by auto
    then show ?thesis
    proof cases
      case 1
      with maybe_save_backup_cases [of rt st1] rec show ?thesis by auto
    next
      case 2
      with rec show ?thesis by (simp add: maybe_save_backup_recovered)
    qed
  qed
  then show ?thesis
    using load_backup_events [of rt st] by (simp add: maybe_save_backup_recovered)
qed

lemma backup_is_same_Inr:
  fixes rt :: "('s, 'f, 'o) runtime"
  assumes "fst (backup_is_same rt st) = Inr same"
  shows "\<exists>data. fst (as_storable_dict rt st) = Inr data"
proof (cases "fst (as_storable_dict rt st)")
  case (Inl e)
  then have "fst (backup_is_same rt st) = Inl e"
    by (auto simp: backup_is_same_def hash_def split: prod.splits sum.splits)
  with assms show ?thesis by simp
next
  case (Inr data)
  then show ?thesis by blast
qed

lemma reconcile_both_present:
  fixes rt :: "('s, 'f, 'o) runtime" and st :: "('s, 't::linorder) state"
  assumes db: "db_file st = Some (db, t)" and bk: "backup_file st = Some (jtext, bt)"
    and same: "fst (backup_is_same rt st) = Inr same"
  shows "reconcile rt st =
     (if \<not> same \<and> bt > t
      then (case load_backup rt (st\<lparr>recovered := False\<rparr>) of
              (Inl e, st') \<Rightarrow> (Inl e, st')
            | (Inr u, st') \<Rightarrow> maybe_save_backup rt st')
      else if bt < t then save_backup rt (st\<lparr>recovered := False\<rparr>)
      else (Inr (), st\<lparr>recovered := False\<rparr>))"
proof -
  define st0 where "st0 = st\<lparr>recovered := False\<rparr>"
  have db0: "db_file st0 = Some (db, t)" and bk0: "backup_file st0 = Some (jtext, bt)"
    and r0: "\<not> recovered st0"
    by (simp_all add: st0_def db bk)
  have "fst (backup_is_same rt st0) = fst (backup_is_same rt st)"
    by (rule backup_is_same_result [OF db db0]) (simp add: st0_def)
  with same have same0: "fst (backup_is_same rt st0) = Inr same" by simp
  note n = backup_is_newer_both [OF db0 bk0 same0]
  note older = backup_is_older_both [OF db0 bk0 same0]
  have l: "maybe_load_backup rt st0 =
      (if \<not> same \<and> bt > t then load_backup rt st0 else (Inr (), st0))"
    by (simp add: maybe_load_backup_def db0 bk0 n)
  have s: "maybe_save_backup rt st0 =
      (if (same \<or> \<not> bt > t) \<and> bt < t then save_backup rt st0 else (Inr (), st0))"
    by (simp add: maybe_save_backup_def r0 bk0 older)
  show ?thesis
    unfolding reconcile_def Let_def st0_def [symmetric]
    by (auto simp: l s)
qed

lemma save_backup_existing:
  fixes rt :: "('s, 'f, 'o) runtime"
  assumes db: "db_file st = Some (db, t)" and data: "fst (as_storable_dict rt st) = Inr data"
  shows "snd (save_backup rt st) =
     st\<lparr>events := events st @ [Refresh],
        backup_file := Some (fst (json_dump rt data) @ (if snd (json_dump rt data) = None then [newline] else []),
                             clock st)\<rparr>"
proof -
  define st1 where "st1 = st\<lparr>events := events st @ [Refresh]\<rparr>"
  have db1: "db_file st1 = Some (db, t)" by (simp add: st1_def db)
  have "fst (as_storable_dict rt st1) = fst (as_storable_dict rt st)"
    by (rule as_storable_dict_result [OF db1 db])
  moreover have "snd (as_storable_dict rt st1) = st1"
    using db1 by (simp add: as_storable_dict_existing)
  ultimately have a: "as_storable_dict rt st1 = (Inr data, st1)"
    using data by (metis prod.collapse)
  have "save_backup rt st =
      (case as_storable_dict rt st1 of
          (Inl e, st) \<Rightarrow> (Inl e, st)
        | (Inr data, st) \<Rightarrow>
            (case json_dump rt data of
               (jt, Some e) \<Rightarrow> (Inl e, st\<lparr>backup_file := Some (jt, clock st)\<rparr>)
             | (jt, None) \<Rightarrow> (Inr (), st\<lparr>backup_file := Some (jt @ [newline], clock st)\<rparr>)))"
    by (simp add: save_backup_def Let_def st1_def)
  then have "save_backup rt st =
      (case json_dump rt data of
               (jt, Some e) \<Rightarrow> (Inl e, st1\<lparr>backup_file := Some (jt, clock st1)\<rparr>)
             | (jt, None) \<Rightarrow> (Inr (), st1\<lparr>backup_file := Some (jt @ [newline], clock st1)\<rparr>))"
    by (simp add: a)
  then show ?thesis
    by (cases "json_dump rt data") (auto simp: st1_def split: option.splits)
qed

text \<open>
  Claim C2, as amended. In a pass in which both files exist, the fingerprints differ and
  the live store's modification time is strictly newer than the backup's, the exit step
  refreshes the backup from the live store (the backup file then holds what \<^verbatim>\<open>json.dump\<close>
  wrote of the document read from the database, the database file is untouched) and no
  restore occurs. When the two modification times are equal, the pass does nothing:
  neither a restore nor a refresh.
\<close>

theorem reconcile_live_newer:
  fixes rt :: "('s, 'f, 'o) runtime" and st :: "('s, 't::linorder) state"
  assumes "db_file st = Some (db, t)" and "backup_file st = Some (jtext, bt)"
    and "fst (backup_is_same rt st) = Inr False"
  shows "(bt < t \<longrightarrow>
            events (snd (reconcile rt st)) = events st @ [Refresh]
          \<and> db_file (snd (reconcile rt st)) = db_file st
          \<and> (\<exists>data. fst (as_storable_dict rt st) = Inr data
                \<and> backup_file (snd (reconcile rt st)) =
                    Some (fst (json_dump rt data)
                            @ (if snd (json_dump rt data) = None then [newline] else []), clock st)))
       \<and> (bt = t \<longrightarrow> reconcile rt st = (Inr (), st\<lparr>recovered := False\<rparr>))"
proof -
  note r = reconcile_both_present [OF assms]
  obtain data where data: "fst (as_storable_dict rt st) = Inr data"
    using backup_is_same_Inr [OF assms(3)] by blast
  define st0 where "st0 = st\<lparr>recovered := False\<rparr>"
  have db0: "db_file st0 = Some (db, t)" by (simp add: st0_def assms(1))
  have "fst (as_storable_dict rt st0) = fst (as_storable_dict rt st)"
    by (rule as_storable_dict_result [OF db0 assms(1)])
  with data have data0: "fst (as_storable_dict rt st0) = Inr data" by simp
  note s = save_backup_existing [OF db0 data0]
  have 1: "bt < t \<Longrightarrow> snd (reconcile rt st) =
      st0\<lparr>events := events st0 @ [Refresh],
        backup_file := Some (fst (json_dump rt data) @ (if snd (json_dump rt data) = None then [newline] else []),
                             clock st0)\<rparr>"
    using r s by (simp add: st0_def)
  have 2: "bt = t \<Longrightarrow> reconcile rt st = (Inr (), st\<lparr>recovered := False\<rparr>)"
    using r by simp
  show ?thesis
    using 1 2 data by (auto simp: st0_def assms(1))
qed

text \<open>
  The database holds one table with one row, the backup is the empty document and is
  older: the pass writes the backup anew.
\<close>

theorem reconcile_live_newer_witness:
  "fst (backup_is_same (toy_rt 0) (toy_state toy_db 2 ''{}'' 1)) = Inr False
   \<and> events (snd (reconcile (toy_rt 0) (toy_state toy_db 2 ''{}'' 1))) = [Refresh]
   \<and> backup_file (snd (reconcile (toy_rt 0) (toy_state toy_db 2 ''{}'' 1))) = Some (''t:1;'' @ [newline], 9)"
proof -
  have d: "db_file (toy_state toy_db 2 ''{}'' 1) = Some (toy_db, 2)"
    and b: "backup_file (toy_state toy_db 2 ''{}'' 1) = Some (''{}'', 1)"
    and e: "events (toy_state toy_db 2 ''{}'' 1) = []"
    and c: "clock (toy_state toy_db 2 ''{}'' 1) = 9"
    by (simp_all add: toy_state_def)
  have s: "fst (backup_is_same (toy_rt 0) (toy_state toy_db 2 ''{}'' 1)) = Inr False"
    by code_simp
  have a: "fst (as_storable_dict (toy_rt 0) (toy_state toy_db 2 ''{}'' 1)) = Inr toy_doc"
    by code_simp
  have j: "json_dump (toy_rt 0) toy_doc = (''t:1;'', None)"
    by code_simp
  from reconcile_live_newer [OF d b s] a j e c s show ?thesis
    by simp
qed

text \<open>
  The claim as the specification states it includes equal modification times. There
  \<^verbatim>\<open>backup_is_older\<close> compares with \<^verbatim>\<open><\<close> and is false: no refresh, and the backup
  keeps its text.
\<close>

theorem reconcile_equal_mtimes_counterexample:
  "fst (backup_is_same (toy_rt 0) (toy_state toy_db 2 ''{}'' 2)) = Inr False
   \<and> events (snd (reconcile (toy_rt 0) (toy_state toy_db 2 ''{}'' 2))) = []
   \<and> backup_file (snd (reconcile (toy_rt 0) (toy_state toy_db 2 ''{}'' 2))) = Some (''{}'', 2)"
  by code_simp

text \<open>
  With equal fingerprints no restore occurs, whatever the times; a refresh occurs
  exactly when the backup is the older file.
\<close>

lemma reconcile_equal_fingerprints:
  fixes rt :: "('s, 'f, 'o) runtime" and st :: "('s, 't::linorder) state"
  assumes "db_file st = Some (db, t)" and "backup_file st = Some (jtext, bt)"
    and "fst (backup_is_same rt st) = Inr True"
  shows "events (snd (reconcile rt st)) = events st @ (if bt < t then [Refresh] else [])"
  using reconcile_both_present [OF assms] save_backup_events [of rt "st\<lparr>recovered := False\<rparr>"]
  by simp

text \<open>
  Claim C1 at a failing input. Both files exist and their fingerprints are equal, and the
  backup is the older file. \<^verbatim>\<open>backup_is_newer\<close> answers \<open>False\<close> because the contents are
  the same, so \<^verbatim>\<open>backup_is_older\<close> goes on to compare the times, and the exit step
  writes the backup: a refresh fires, and the backup file is written anew at the time of
  the pass, although the claim says that no action occurs.
\<close>

theorem reconcile_equal_fingerprints_refreshes:
  "fst (backup_is_same (toy_rt 0) (toy_state toy_db 2 ''doc'' 1)) = Inr True
   \<and> events (snd (reconcile (toy_rt 0) (toy_state toy_db 2 ''doc'' 1))) = [Refresh]
   \<and> backup_file (toy_state toy_db 2 ''doc'' 1) = Some (''doc'', 1)
   \<and> backup_file (snd (reconcile (toy_rt 0) (toy_state toy_db 2 ''doc'' 1)))
       = Some (''t:1;'' @ [newline], 9)"
  by code_simp

text \<open>
  Only the backup exists: the enter step restores, the session is recovered, and the
  only action of the pass is the restore.
\<close>

theorem reconcile_never_both_witness:
  "fst (load_backup (toy_rt 0) (toy_state_no_db ''doc'' 3)) = Inr ()
   \<and> recovered (snd (load_backup (toy_rt 0) (toy_state_no_db ''doc'' 3)))
   \<and> events (snd (reconcile (toy_rt 0) (toy_state_no_db ''doc'' 3))) = [Restore]"
proof -
  have l: "fst (load_backup (toy_rt 0) (toy_state_no_db ''doc'' 3)) = Inr ()"
    by code_simp
  have e: "events (snd (reconcile (toy_rt 0) (toy_state_no_db ''doc'' 3))) = [Restore]"
    by code_simp
  from reconcile_never_both [of "toy_rt 0" "toy_state_no_db ''doc'' 3"] l e show ?thesis
    by blast
qed

section \<open>What a failed restore leaves behind\<close>

lemma run_commands_append:
  "run_commands rt db (xs @ ys) =
     (case run_commands rt db xs of Inl e \<Rightarrow> Inl e | Inr db' \<Rightarrow> run_commands rt db' ys)"
  by (induction xs arbitrary: db) (auto split: sum.splits)

text \<open>One batch on a database file that carries the time of the pass.\<close>

lemma execute_sql_batch:
  assumes "\<not> dummy st" and "db_file st = Some (db, clock st)"
  shows "execute_sql rt (Batch b) st =
     (case run_commands rt db b of
        Inl e \<Rightarrow> (Inl e, st)
      | Inr db' \<Rightarrow> (Inr (), st\<lparr>db_file := Some (db', clock st)\<rparr>))"
proof -
  have c: "connect rt st = (db, st)"
    using assms(2) by (simp add: connect_existing)
  have same: "st\<lparr>db_file := Some (db, clock st)\<rparr> = st"
    using assms(2) by simp
  show ?thesis
    using assms(1) same by (auto simp: execute_sql_def c split: sum.splits)
qed

text \<open>One batch when there is no database file: the connection creates an empty one.\<close>

lemma execute_sql_batch_new:
  assumes "\<not> dummy st" and "db_file st = None"
  shows "execute_sql rt (Batch b) st =
     (case run_commands rt (sql_empty rt) b of
        Inl e \<Rightarrow> (Inl e, st\<lparr>db_file := Some (sql_empty rt, clock st)\<rparr>)
      | Inr db' \<Rightarrow> (Inr (), st\<lparr>db_file := Some (db', clock st)\<rparr>))"
proof -
  have c: "connect rt st = (sql_empty rt, st\<lparr>db_file := Some (sql_empty rt, clock st)\<rparr>)"
    using assms(2) by (simp add: connect_def)
  show ?thesis
    using assms(1) by (auto simp: execute_sql_def c split: sum.splits)
qed

lemma execute_each_dummy: "dummy st \<Longrightarrow> execute_each rt bs st = (Inr (), st)"
  by (induction bs) (simp_all add: execute_sql_def)

lemma execute_each_batches:
  assumes "\<not> dummy st" and "db_file st = Some (db, clock st)"
  shows "\<exists>k db'. k \<le> length bs
      \<and> db_file (snd (execute_each rt bs st)) = Some (db', clock st)
      \<and> run_commands rt db (concat (take k bs)) = Inr db'
      \<and> (k = length bs \<longrightarrow> fst (execute_each rt bs st) = Inr ())
      \<and> (k < length bs \<longrightarrow>
           (\<exists>e. run_commands rt db' (bs ! k) = Inl e \<and> fst (execute_each rt bs st) = Inl e))"
  using assms
proof (induction bs arbitrary: st db)
  case Nil
  then show ?case by simp
next
  case (Cons b bs)
  note ex = execute_sql_batch [OF Cons.prems, of rt b]
  show ?case
  proof (cases "run_commands rt db b")
    case (Inl e)
    then have "execute_each rt (b # bs) st = (Inl e, st)"
      by (simp add: ex)
    with Inl Cons.prems(2) show ?thesis
      by (intro exI [of _ 0] exI [of _ db]) simp
  next
    case (Inr db1)
    define st1 where "st1 = st\<lparr>db_file := Some (db1, clock st)\<rparr>"
    have e: "execute_each rt (b # bs) st = execute_each rt bs st1"
      using Inr by (simp add: ex st1_def)
    have p1: "\<not> dummy st1" "db_file st1 = Some (db1, clock st1)" "clock st1 = clock st"
      using Cons.prems(1) by (simp_all add: st1_def)
    from Cons.IH [OF p1(1,2)] obtain k db' where k: "k \<le> length bs"
      "db_file (snd (execute_each rt bs st1)) = Some (db', clock st1)"
      "run_commands rt db1 (concat (take k bs)) = Inr db'"
      "k = length bs \<longrightarrow> fst (execute_each rt bs st1) = Inr ()"
      "k < length bs \<longrightarrow>
           (\<exists>e. run_commands rt db' (bs ! k) = Inl e \<and> fst (execute_each rt bs st1) = Inl e)"
      by blast
    have "run_commands rt db (concat (take (Suc k) (b # bs))) = Inr db'"
      using Inr k(3) by (simp add: run_commands_append)
    with k e p1(3) show ?thesis
      by (intro exI [of _ "Suc k"] exI [of _ db']) simp
  qed
qed

text \<open>
  Claim C3, as amended. For a backup that is read and whose statements can all be built,
  a restore outside dummy mode runs the schema-definition statements as one transaction
  and then the data-insertion statements table by table, one transaction per table. When
  no statement fails, all the batches are applied, in order, to an empty database. When a
  statement fails, the batch it belongs to is rolled back and the restore stops with that
  statement's error, and the batches before it stay committed: the live store then holds
  a whole number of batches, not necessarily none. In dummy mode no statement is run, and
  the restore returns with no database file.
\<close>

theorem load_backup_whole_batches:
  fixes rt :: "('s, 'f, 'o) runtime" and st :: "('s, 't) state"
  assumes "backup_file st = Some (jtext, bt)" and "json_load rt jtext = Inr data"
    and "create_statements_of rt data = Inr cs" and "populate_all rt data = Inr pops"
  shows "(dummy st \<longrightarrow>
            fst (load_backup rt st) = Inr () \<and> db_file (snd (load_backup rt st)) = None)
     \<and> (\<not> dummy st \<longrightarrow>
          (\<exists>k db'. k \<le> length (cs # pops)
             \<and> db_file (snd (load_backup rt st)) = Some (db', clock st)
             \<and> run_commands rt (sql_empty rt) (concat (take k (cs # pops))) = Inr db'
             \<and> (k = length (cs # pops) \<longrightarrow> fst (load_backup rt st) = Inr ())
             \<and> (k < length (cs # pops) \<longrightarrow>
                  (\<exists>e. run_commands rt db' ((cs # pops) ! k) = Inl e
                       \<and> fst (load_backup rt st) = Inl e))))"
proof -
  define st1 where "st1 = st\<lparr>events := events st @ [Restore]\<rparr>"
  define st2 where "st2 = (case db_file st1 of
                 Some (db, t) \<Rightarrow> st1\<lparr>bak_files := bak_files st1 @ [db], db_file := None\<rparr>
               | None \<Rightarrow> st1)"
  have p2: "dummy st2 = dummy st" "db_file st2 = None" "backup_file st2 = Some (jtext, bt)"
      "clock st2 = clock st"
    using assms(1) by (simp_all add: st2_def st1_def split: option.splits)
  have l: "load_backup rt st =
      (case execute_sql rt (Batch cs) st2 of
         (Inl e, st') \<Rightarrow> (Inl e, st')
       | (Inr u, st') \<Rightarrow>
           (case execute_each rt pops st' of
              (Inl e, st'') \<Rightarrow> (Inl e, st'')
            | (Inr u, st'') \<Rightarrow> (Inr (), st''\<lparr>recovered := True\<rparr>)))"
    unfolding load_backup_def Let_def st1_def [symmetric] st2_def [symmetric]
    by (simp add: p2 assms(2,3,4) split: prod.splits sum.splits)
  show ?thesis
  proof (intro conjI impI)
    assume d: "dummy st"
    then have d2: "dummy st2" by (simp add: p2)
    then have "execute_sql rt (Batch cs) st2 = (Inr (), st2)"
      by (simp add: execute_sql_def)
    then have "load_backup rt st = (Inr (), st2\<lparr>recovered := True\<rparr>)"
      by (simp add: l execute_each_dummy [OF d2])
    then show "fst (load_backup rt st) = Inr ()" and "db_file (snd (load_backup rt st)) = None"
      by (simp_all add: p2)
  next
    assume "\<not> dummy st"
    then have nd2: "\<not> dummy st2" by (simp add: p2)
    note ex = execute_sql_batch_new [OF nd2 p2(2), of rt cs]
    define st3 where "st3 = st2\<lparr>db_file := Some (sql_empty rt, clock st)\<rparr>"
    show "\<exists>k db'. k \<le> length (cs # pops)
             \<and> db_file (snd (load_backup rt st)) = Some (db', clock st)
             \<and> run_commands rt (sql_empty rt) (concat (take k (cs # pops))) = Inr db'
             \<and> (k = length (cs # pops) \<longrightarrow> fst (load_backup rt st) = Inr ())
             \<and> (k < length (cs # pops) \<longrightarrow>
                  (\<exists>e. run_commands rt db' ((cs # pops) ! k) = Inl e
                       \<and> fst (load_backup rt st) = Inl e))"
    proof (cases "run_commands rt (sql_empty rt) cs")
      case (Inl e)
      then have "load_backup rt st = (Inl e, st3)"
        by (simp add: l ex st3_def p2)
      with Inl show ?thesis
        by (intro exI [of _ 0] exI [of _ "sql_empty rt"]) (simp add: st3_def)
    next
      case (Inr db1)
      define st4 where "st4 = st2\<lparr>db_file := Some (db1, clock st)\<rparr>"
      have e: "execute_sql rt (Batch cs) st2 = (Inr (), st4)"
        using Inr by (simp add: ex st4_def p2)
      have p4: "\<not> dummy st4" "db_file st4 = Some (db1, clock st4)" "clock st4 = clock st"
        using nd2 p2 by (simp_all add: st4_def)
      from execute_each_batches [OF p4(1,2), where rt = rt and bs = pops] obtain k db' where
        k: "k \<le> length pops"
        "db_file (snd (execute_each rt pops st4)) = Some (db', clock st4)"
        "run_commands rt db1 (concat (take k pops)) = Inr db'"
        "k = length pops \<longrightarrow> fst (execute_each rt pops st4) = Inr ()"
        "k < length pops \<longrightarrow>
           (\<exists>e. run_commands rt db' (pops ! k) = Inl e \<and> fst (execute_each rt pops st4) = Inl e)"
        by blast
      have r: "run_commands rt (sql_empty rt) (concat (take (Suc k) (cs # pops))) = Inr db'"
        using Inr k(3) by (simp add: run_commands_append)
      have l2: "load_backup rt st =
          (case execute_each rt pops st4 of
              (Inl e, st'') \<Rightarrow> (Inl e, st'')
            | (Inr u, st'') \<Rightarrow> (Inr (), st''\<lparr>recovered := True\<rparr>))"
        by (simp add: l e)
      obtain r4 st5 where ee: "execute_each rt pops st4 = (r4, st5)"
        by (cases "execute_each rt pops st4")
      have "db_file (snd (load_backup rt st)) = Some (db', clock st)"
        using k(2) ee p4(3) by (cases r4) (simp_all add: l2)
      moreover have "fst (load_backup rt st) = fst (execute_each rt pops st4)"
        using ee by (cases r4) (simp_all add: l2)
      ultimately show ?thesis
        using k r by (intro exI [of _ "Suc k"] exI [of _ db']) simp
    qed
  qed
qed

text \<open>
  A backup of two tables whose second table, with a primary key, holds the same row
  twice, restored over an existing database: every statement can be built, the session is
  not in dummy mode, and the restore ends with a whole number of the three batches
  committed.
\<close>

theorem load_backup_whole_batches_witness:
  "\<not> dummy (toy_state toy_db 1 ''doc2'' 3)
   \<and> json_load (toy_rt 0) ''doc2'' = Inr toy_doc2
   \<and> create_statements_of (toy_rt 0) toy_doc2 =
        Inr [''CREATE TABLE a (id INTEGER);'', ''CREATE TABLE b (id INTEGER PRIMARY KEY);'']
   \<and> populate_all (toy_rt 0) toy_doc2 =
        Inr [[''INSERT INTO a (id) VALUES (1);''],
             [''INSERT INTO b (id) VALUES (1);'', ''INSERT INTO b (id) VALUES (1);'']]
   \<and> (\<exists>k db'. k \<le> 3
        \<and> db_file (snd (load_backup (toy_rt 0) (toy_state toy_db 1 ''doc2'' 3))) = Some (db', 9)
        \<and> run_commands (toy_rt 0) []
             (concat (take k [[''CREATE TABLE a (id INTEGER);'',
                               ''CREATE TABLE b (id INTEGER PRIMARY KEY);''],
                              [''INSERT INTO a (id) VALUES (1);''],
                              [''INSERT INTO b (id) VALUES (1);'', ''INSERT INTO b (id) VALUES (1);'']]))
            = Inr db')"
proof -
  have d: "\<not> dummy (toy_state toy_db 1 ''doc2'' 3)"
    and b: "backup_file (toy_state toy_db 1 ''doc2'' 3) = Some (''doc2'', 3)"
    by (simp_all add: toy_state_def)
  have j: "json_load (toy_rt 0) ''doc2'' = Inr toy_doc2"
    by code_simp
  have cs: "create_statements_of (toy_rt 0) toy_doc2 =
      Inr [''CREATE TABLE a (id INTEGER);'', ''CREATE TABLE b (id INTEGER PRIMARY KEY);'']"
    by code_simp
  have p: "populate_all (toy_rt 0) toy_doc2 =
        Inr [[''INSERT INTO a (id) VALUES (1);''],
             [''INSERT INTO b (id) VALUES (1);'', ''INSERT INTO b (id) VALUES (1);'']]"
    by code_simp
  have e: "sql_empty (toy_rt 0) = []"
    by (simp add: toy_rt_def)
  from load_backup_whole_batches [OF b j cs p] d obtain k db' where
    "k \<le> length ([''CREATE TABLE a (id INTEGER);'', ''CREATE TABLE b (id INTEGER PRIMARY KEY);''] #
         [[''INSERT INTO a (id) VALUES (1);''],
          [''INSERT INTO b (id) VALUES (1);'', ''INSERT INTO b (id) VALUES (1);'']])"
    "db_file (snd (load_backup (toy_rt 0) (toy_state toy_db 1 ''doc2'' 3)))
       = Some (db', clock (toy_state toy_db 1 ''doc2'' 3))"
    "run_commands (toy_rt 0) (sql_empty (toy_rt 0))
       (concat (take k ([''CREATE TABLE a (id INTEGER);'', ''CREATE TABLE b (id INTEGER PRIMARY KEY);''] #
         [[''INSERT INTO a (id) VALUES (1);''],
          [''INSERT INTO b (id) VALUES (1);'', ''INSERT INTO b (id) VALUES (1);'']]))) = Inr db'"
    by blast
  then have "k \<le> 3
        \<and> db_file (snd (load_backup (toy_rt 0) (toy_state toy_db 1 ''doc2'' 3))) = Some (db', 9)
        \<and> run_commands (toy_rt 0) []
             (concat (take k [[''CREATE TABLE a (id INTEGER);'',
                               ''CREATE TABLE b (id INTEGER PRIMARY KEY);''],
                              [''INSERT INTO a (id) VALUES (1);''],
                              [''INSERT INTO b (id) VALUES (1);'', ''INSERT INTO b (id) VALUES (1);'']]))
            = Inr db'"
    by (simp add: e toy_state_def)
  with d j cs p show ?thesis by blast
qed

text \<open>
  The claim as the specification states it fails on that backup. The second insertion
  into table \<^verbatim>\<open>b\<close> breaks the primary key and only the batch of table \<^verbatim>\<open>b\<close> is rolled
  back: the restore raises, the former database has been moved aside, and the live store
  holds both tables and the row of table \<^verbatim>\<open>a\<close>.
\<close>

theorem load_backup_partial_counterexample:
  "fst (load_backup (toy_rt 0) (toy_state toy_db 1 ''doc2'' 3))
     = Inl (Sqlite_Error ''UNIQUE constraint failed'')
   \<and> db_file (snd (load_backup (toy_rt 0) (toy_state toy_db 1 ''doc2'' 3))) =
       Some ([''CREATE TABLE a (id INTEGER);'', ''CREATE TABLE b (id INTEGER PRIMARY KEY);'',
              ''INSERT INTO a (id) VALUES (1);''], 9)
   \<and> bak_files (snd (load_backup (toy_rt 0) (toy_state toy_db 1 ''doc2'' 3))) = [toy_db]"
  by code_simp

section \<open>The content fingerprint\<close>

text \<open>
  Reading a database that does not exist yet is reading the empty database that the
  connection creates.
\<close>

lemma query_new:
  assumes "db_file st = None"
  shows "query rt fetch q st = query rt fetch q (st\<lparr>db_file := Some (sql_empty rt, clock st)\<rparr>)"
  using assms by (simp add: query_def connect_def)

lemma as_storable_dict_new:
  assumes "db_file st = None"
  shows "as_storable_dict rt st = as_storable_dict rt (st\<lparr>db_file := Some (sql_empty rt, clock st)\<rparr>)"
  by (simp add: as_storable_dict_def query_new [OF assms])

text \<open>Computing the fingerprint of the live store a second time gives the same result.\<close>

lemma hash_twice:
  fixes rt :: "('s, 'f, 'o) runtime"
  shows "fst (hash rt (snd (hash rt st))) = fst (hash rt st)"
proof -
  have h: "\<And>s. fst (hash rt s) = map_sum id (hash_of_storable rt) (fst (as_storable_dict rt s))"
    "\<And>s. snd (hash rt s) = snd (as_storable_dict rt s)"
    by (auto simp: hash_def split: prod.splits sum.splits)
  have "fst (as_storable_dict rt (snd (as_storable_dict rt st))) = fst (as_storable_dict rt st)"
  proof (cases "db_file st")
    case None
    define st' where "st' = st\<lparr>db_file := Some (sql_empty rt, clock st)\<rparr>"
    have a: "as_storable_dict rt st = as_storable_dict rt st'"
      unfolding st'_def by (rule as_storable_dict_new [OF None])
    have "snd (as_storable_dict rt st') = st'"
      by (rule as_storable_dict_existing) (simp add: st'_def)
    then show ?thesis by (simp add: a)
  next
    case (Some p)
    then have "snd (as_storable_dict rt st) = st"
      by (simp add: as_storable_dict_existing)
    then show ?thesis by simp
  qed
  then show ?thesis by (simp add: h)
qed

text \<open>
  Claim C4, as amended. The fingerprint is deterministic for a fixed hash seed: computing
  the digest of the live store twice in one run gives the same value, two runs whose
  built-in \<^verbatim>\<open>hash\<close> is the same (and that print floats and bytes alike) give every
  document the same digest, and a live store and a backup with equal content, compared in
  one run, are found the same.
\<close>

theorem hash_of_storable_same_seed:
  fixes rt rt' :: "('s, 'f, 'o) runtime" and st :: "('s, 't) state"
  shows "fst (hash rt (snd (hash rt st))) = fst (hash rt st)
     \<and> (py_hash rt' = py_hash rt \<and> str_float rt' = str_float rt \<and> str_other rt' = str_other rt \<longrightarrow>
          hash_of_storable rt' d = hash_of_storable rt d)
     \<and> (db_file st = Some (db, t) \<and> backup_file st = Some (jtext, bt)
          \<and> fst (as_storable_dict rt st) = Inr d \<and> json_load rt jtext = Inr d \<longrightarrow>
          backup_is_same rt st = (Inr True, st))"
proof (intro conjI impI)
  show "fst (hash rt (snd (hash rt st))) = fst (hash rt st)"
    by (rule hash_twice)
next
  assume "py_hash rt' = py_hash rt \<and> str_float rt' = str_float rt \<and> str_other rt' = str_other rt"
  then show "hash_of_storable rt' d = hash_of_storable rt d"
    by (simp add: hash_of_storable_def)
next
  assume a: "db_file st = Some (db, t) \<and> backup_file st = Some (jtext, bt)
          \<and> fst (as_storable_dict rt st) = Inr d \<and> json_load rt jtext = Inr d"
  then have "snd (as_storable_dict rt st) = st"
    by (simp add: as_storable_dict_existing)
  with a have "as_storable_dict rt st = (Inr d, st)"
    by (metis prod.collapse)
  with a show "backup_is_same rt st = (Inr True, st)"
    by (simp add: backup_is_same_def hash_def backed_up_hash_def)
qed

text \<open>
  A run with seed 5, a database and a backup with the same document: they are found the
  same, and a second run with seed 5 gives the document the same digest.
\<close>

theorem hash_of_storable_same_seed_witness:
  "fst (as_storable_dict (toy_rt 5) (toy_state toy_db 2 ''doc'' 1)) = Inr toy_doc
   \<and> json_load (toy_rt 5) ''doc'' = Inr toy_doc
   \<and> backup_is_same (toy_rt 5) (toy_state toy_db 2 ''doc'' 1)
       = (Inr True, toy_state toy_db 2 ''doc'' 1)
   \<and> hash_of_storable ((toy_rt 0)\<lparr>py_hash := toy_hash 5\<rparr>) toy_doc = hash_of_storable (toy_rt 5) toy_doc"
proof -
  have d: "db_file (toy_state toy_db 2 ''doc'' 1) = Some (toy_db, 2)"
    and b: "backup_file (toy_state toy_db 2 ''doc'' 1) = Some (''doc'', 1)"
    by (simp_all add: toy_state_def)
  have a: "fst (as_storable_dict (toy_rt 5) (toy_state toy_db 2 ''doc'' 1)) = Inr toy_doc"
    by code_simp
  have j: "json_load (toy_rt 5) ''doc'' = Inr toy_doc"
    by code_simp
  have s: "py_hash ((toy_rt 0)\<lparr>py_hash := toy_hash 5\<rparr>) = py_hash (toy_rt 5)
      \<and> str_float ((toy_rt 0)\<lparr>py_hash := toy_hash 5\<rparr>) = str_float (toy_rt 5)
      \<and> str_other ((toy_rt 0)\<lparr>py_hash := toy_hash 5\<rparr>) = str_other (toy_rt 5)"
    by (simp add: toy_rt_def)
  from hash_of_storable_same_seed [of "toy_rt 5" "toy_state toy_db 2 ''doc'' 1"
      "(toy_rt 0)\<lparr>py_hash := toy_hash 5\<rparr>" toy_doc toy_db 2 "''doc''" 1] d b a j s
  show ?thesis by simp
qed

text \<open>
  The claim as the specification states it asks for the same digest in any two runs.
  The digest is the built-in \<^verbatim>\<open>hash\<close> of a string, which depends on the run's hash
  seed: two runs with different seeds give the same document different fingerprints.
\<close>

theorem hash_of_storable_two_runs_counterexample:
  "hash_of_storable (toy_rt 0) toy_doc \<noteq> hash_of_storable (toy_rt 1) toy_doc"
  by code_simp

end
